theory Spec2Isabelle
  imports Complex_Main "HOL-Library.Sublist" "HOL-Library.AList"
begin

section \<open>Interview Transcription Stub API: a shallow embedding of backend/main.py\<close>

text \<open>
  The development follows \<^verbatim>\<open>src/backend/main.py\<close>. Python strings are character
  lists over the 8-bit range (code points below 256), Python floats are modelled by their
  exact rational value (type \<open>rat\<close>; the float operations of the statistics, which
  round, are parameters), timestamps are natural numbers, the record store \<^verbatim>\<open>DB\<close> is an association list in
  insertion order (as a Python dict is), exceptions are values of the type \<open>exn\<close>, and
  every handler takes the world and returns its answer together with the new world.
\<close>

subsection \<open>Python library functions used by the handlers\<close>

text \<open>\<^verbatim>\<open>str.lower()\<close> on code points below 256: A-Z and the upper-case letters of the
  Latin-1 block (U+00C0 to U+00DE without the multiplication sign U+00D7) move up by 32.\<close>

definition lower_char :: "char \<Rightarrow> char" where
  "lower_char c =
     (let n = (of_char c :: nat) in
      if (65 \<le> n \<and> n \<le> 90) \<or> (192 \<le> n \<and> n \<le> 222 \<and> n \<noteq> 215)
      then char_of (n + 32) else c)"

definition lower :: "string \<Rightarrow> string" where
  "lower s = map lower_char s"

text \<open>\<^verbatim>\<open>sub in s\<close> for strings: \<open>sub\<close> occurs in \<open>s\<close> as a contiguous block.\<close>

fun py_in :: "string \<Rightarrow> string \<Rightarrow> bool" where
  "py_in sub [] = (sub = [])"
| "py_in sub (c # cs) = (prefix sub (c # cs) \<or> py_in sub cs)"

text \<open>\<^verbatim>\<open>s.startswith('.')\<close> and \<^verbatim>\<open>s.lstrip('.')\<close>.\<close>

definition startswith_dot :: "string \<Rightarrow> bool" where
  "startswith_dot s = (case s of [] \<Rightarrow> False | c # _ \<Rightarrow> c = CHR ''.'')"

definition lstrip_dot :: "string \<Rightarrow> string" where
  "lstrip_dot s = dropWhile (\<lambda>c. c = CHR ''.'') s"

text \<open>\<^verbatim>\<open>p.rfind(c)\<close> for a single character: the last index of \<open>c\<close>, or -1.\<close>

definition rfind :: "string \<Rightarrow> char \<Rightarrow> int" where
  "rfind p c =
     (if c \<in> set p
      then int (length p) - 1 - int (length (takeWhile (\<lambda>x. x \<noteq> c) (rev p)))
      else - 1)"

text \<open>
  \<^verbatim>\<open>os.path.splitext\<close> on a POSIX system (\<^verbatim>\<open>genericpath._splitext\<close> with separator
  \<^verbatim>\<open>/\<close>): the extension starts at the last dot of the last path component, unless that
  component has only dots before it. The loop skips the leading dots of the component.
\<close>

function splitext_loop :: "string \<Rightarrow> int \<Rightarrow> int \<Rightarrow> bool" where
  "splitext_loop p dotIndex filenameIndex =
     (if filenameIndex < dotIndex
      then (if p ! nat filenameIndex \<noteq> CHR ''.'' then True
            else splitext_loop p dotIndex (filenameIndex + 1))
      else False)"
  by pat_completeness auto
termination
  by (relation "measure (\<lambda>(p, d, f). nat (d - f))") auto

declare splitext_loop.simps [simp del]

definition splitext :: "string \<Rightarrow> string \<times> string" where
  "splitext p =
     (let sepIndex = rfind p CHR ''/'';
          dotIndex = rfind p CHR ''.''
      in if dotIndex > sepIndex \<and> 0 \<le> sepIndex + 1 \<and> splitext_loop p dotIndex (sepIndex + 1)
         then (take (nat dotIndex) p, drop (nat dotIndex) p)
         else (p, []))"

text \<open>\<^verbatim>\<open>os.path.join(a, b)\<close> for two components on a POSIX system.\<close>

definition path_join :: "string \<Rightarrow> string \<Rightarrow> string" where
  "path_join a b =
     (if prefix ''/'' b then b
      else if a = [] \<or> last a = CHR ''/'' then a @ b
      else a @ ''/'' @ b)"

text \<open>
  \<^verbatim>\<open>re.search(r'filename="?([^"]+)"?', s)\<close> followed by \<^verbatim>\<open>match.group(1)\<close>: at the
  first occurrence of \<^verbatim>\<open>filename=\<close> after which, behind an optional double quote, at least
  one character other than a double quote follows, the group is the longest run of such
  characters. An occurrence followed by nothing, or by a quote and then another quote or
  the end, does not match, and the search moves on.
\<close>

definition quote_char :: char where
  "quote_char = CHR 0x22"

definition cd_group :: "string \<Rightarrow> string option" where
  "cd_group r =
     (let r' = (case r of [] \<Rightarrow> [] | c # cs \<Rightarrow> if c = quote_char then cs else c # cs);
          run = takeWhile (\<lambda>c. c \<noteq> quote_char) r'
      in if run = [] then None else Some run)"

fun cd_filename :: "string \<Rightarrow> string option" where
  "cd_filename [] = None"
| "cd_filename (c # cs) =
     (if prefix ''filename='' (c # cs)
      then (case cd_group (drop 9 (c # cs)) of
              Some g \<Rightarrow> Some g
            | None \<Rightarrow> cd_filename cs)
      else cd_filename cs)"

text \<open>Rendering of natural numbers in decimal, as \<^verbatim>\<open>str\<close> and the format codes do.\<close>

definition digit_char :: "nat \<Rightarrow> char" where
  "digit_char d = char_of (48 + d)"

function str_nat :: "nat \<Rightarrow> string" where
  "str_nat n = (if n < 10 then [digit_char n] else str_nat (n div 10) @ [digit_char (n mod 10)])"
  by pat_completeness auto
termination
  by (relation "measure id") auto

declare str_nat.simps [simp del]

text \<open>
  Rounding to the nearest integer with ties to the even neighbour, which is what
  \<^verbatim>\<open>round(x, 2)\<close> and the format code \<^verbatim>\<open>.1f\<close> do on the exact value of a float.
\<close>

definition round_half_even :: "rat \<Rightarrow> int" where
  "round_half_even x =
     (let f = \<lfloor>x\<rfloor>; d = x - of_int f
      in if d < 1 / 2 then f
         else if 1 / 2 < d then f + 1
         else if even f then f else f + 1)"

text \<open>
  \<^verbatim>\<open>f"{x:.1f}"\<close> of a finite float: sign, integer part, a dot and one decimal digit.
  The negative zero and the non-finite floats have no counterpart in \<open>rat\<close>.
\<close>

definition format_1f :: "rat \<Rightarrow> string" where
  "format_1f x =
     (let n = nat (round_half_even (\<bar>x\<bar> * 10))
      in (if x < 0 then ''-'' else '''') @ str_nat (n div 10) @ ''.'' @ str_nat (n mod 10))"

text \<open>\<^verbatim>\<open>round(x, 2)\<close>.\<close>

definition round2 :: "rat \<Rightarrow> rat" where
  "round2 x = of_int (round_half_even (x * 100)) / 100"

subsection \<open>Data model\<close>

text \<open>
  Exceptions. \<open>HTTPException code detail\<close> is the framework's error answer; the others
  are Python exceptions that no handler turns into an answer of its own.
\<close>

datatype exn =
    HTTPException nat string
  | KeyError string
  | ReError string
  | OtherError string

type_synonym datetime = nat
type_synonym bytes = "char list"

datatype json =
    JNull
  | JBool bool
  | JNum rat
  | JStr string
  | JArr "json list"
  | JObj "(string \<times> json) list"

record TranscriptItem =
  item_start :: rat
  item_end :: rat
  item_text :: string

record Analysis =
  summary :: "string option"
  sentiment :: "string option"
  sentiment_score :: "rat option"
  analysis_keywords :: "string list option"
  questions :: "(string \<times> string) list list option"
  topics :: "(string \<times> json) list list option"
  speaker_analysis :: "(string \<times> json) list option"

record Tag =
  tag_id :: string
  tag_text :: string
  start_time :: rat
  end_time :: rat
  color :: string
  tag_created_at :: datetime

record SearchResult =
  sr_text :: string
  sr_start_time :: rat
  sr_end_time :: rat
  line_number :: nat

record Interview =
  iv_id :: string
  filename :: string
  original_name :: string
  file_size :: nat
  file_path :: string
  cloudinary_url :: "string option"
  cloudinary_public_id :: "string option"
  upload_date :: datetime
  status :: string
  transcript :: "TranscriptItem list option"
  analysis :: "Analysis option"
  tags :: "Tag list"
  created_at :: datetime
  updated_at :: datetime

text \<open>
  The module-level constants. \<open>UPLOAD_DIR\<close> and \<open>USE_CLOUDINARY\<close> come from the
  environment. \<open>sample_transcript\<close> is the outcome of evaluating
  \<^verbatim>\<open>[TranscriptItem(**t) for t in SAMPLE_TRANSCRIPT["transcript"]]\<close> and \<open>sample_analysis\<close>
  the outcome of \<^verbatim>\<open>Analysis(**SAMPLE_ANALYSIS)\<close>: both depend on the files
  \<^verbatim>\<open>sample_transcript.json\<close> and \<^verbatim>\<open>sample_analysis.json\<close>, whose content may fail the
  validation of the model classes.
\<close>

record config =
  UPLOAD_DIR :: string
  USE_CLOUDINARY :: bool
  sample_transcript :: "exn + TranscriptItem list"
  sample_analysis :: "exn + Analysis"

text \<open>The fallback sample data of the module, used when the sample files are absent.\<close>

definition SAMPLE_TRANSCRIPT :: "TranscriptItem list" where
  "SAMPLE_TRANSCRIPT =
     [\<lparr>item_start = 0, item_end = 5 / 2,
        item_text = ''Hello, thank you for joining us today for this interview.''\<rparr>,
      \<lparr>item_start = 5 / 2, item_end = 5,
        item_text = ''Could you please tell us a bit about your background and experience?''\<rparr>,
      \<lparr>item_start = 5, item_end = 8,
        item_text = ''I have over 5 years of experience in software development, primarily working with React and Node.js.''\<rparr>,
      \<lparr>item_start = 8, item_end = 12,
        item_text = ''That'' @ [CHR 0x27] @ ''s great! Can you walk us through a challenging project you''
                    @ [CHR 0x27] @ ''ve worked on recently?''\<rparr>,
      \<lparr>item_start = 12, item_end = 18,
        item_text = ''Recently, I led a team of 4 developers to build a real-time collaboration platform using WebSockets and React.''\<rparr>]"

definition SAMPLE_ANALYSIS :: Analysis where
  "SAMPLE_ANALYSIS =
     \<lparr>summary = Some (''A comprehensive interview covering the candidate'' @ [CHR 0x27]
                       @ ''s background, technical experience, and project management skills.''),
      sentiment = Some ''positive'',
      sentiment_score = Some (78 / 100),
      analysis_keywords = Some [''React'', ''Node.js'', ''WebSockets'', ''team leadership'', ''collaboration''],
      questions = Some
        [[(''question'', ''Could you please tell us a bit about your background and experience?''),
          (''answer'', ''I have over 5 years of experience in software development, primarily working with React and Node.js.''),
          (''category'', ''background'')],
         [(''question'', ''Can you walk us through a challenging project you'' @ [CHR 0x27]
                          @ ''ve worked on recently?''),
          (''answer'', ''Recently, I led a team of 4 developers to build a real-time collaboration platform using WebSockets and React.''),
          (''category'', ''technical'')]],
      topics = Some
        [[(''name'', JStr ''Software Development''), (''confidence'', JNum (95 / 100)), (''mentions'', JNum 3)],
         [(''name'', JStr ''Team Leadership''), (''confidence'', JNum (88 / 100)), (''mentions'', JNum 2)],
         [(''name'', JStr ''React''), (''confidence'', JNum (92 / 100)), (''mentions'', JNum 2)]],
      speaker_analysis = Some
        [(''total_speakers'', JNum 2),
         (''speaker_1'', JObj [(''duration'', JNum (17 / 2)), (''words'', JNum 45)]),
         (''speaker_2'', JObj [(''duration'', JNum (19 / 2)), (''words'', JNum 52)])]\<rparr>"

definition default_config :: config where
  "default_config =
     \<lparr>UPLOAD_DIR = ''./uploads'', USE_CLOUDINARY = False,
      sample_transcript = Inr SAMPLE_TRANSCRIPT, sample_analysis = Inr SAMPLE_ANALYSIS\<rparr>"

text \<open>
  A scheduled run of the transcription simulator: the interview it was scheduled for and
  the statement it executes next (see \<open>sim_step\<close> below).
\<close>

datatype pc = P_processing | P_updated1 | P_sleep | P_transcript | P_analysis
  | P_completed | P_updated2 | H_failed | H_updated | Returned | Raised exn

text \<open>
  The world: the record store \<^verbatim>\<open>DB\<close>, the files of the local file system, the objects
  of the remote media store, and the background tasks that were scheduled.
\<close>

record world =
  DB :: "(string \<times> Interview) list"
  files :: "string \<rightharpoonup> bytes"
  cloud :: "string \<rightharpoonup> bytes"
  tasks :: "(string \<times> pc) list"

definition empty_world :: world where
  "empty_world = \<lparr>DB = [], files = Map.empty, cloud = Map.empty, tasks = []\<rparr>"

text \<open>\<^verbatim>\<open>DB[k]\<close>, \<^verbatim>\<open>k in DB\<close>, \<^verbatim>\<open>DB[k] = v\<close> and \<^verbatim>\<open>del DB[k]\<close>.\<close>

definition db_get :: "(string \<times> Interview) list \<Rightarrow> string \<Rightarrow> Interview option" where
  "db_get db k = map_of db k"

definition db_set :: "string \<Rightarrow> Interview \<Rightarrow> (string \<times> Interview) list \<Rightarrow> (string \<times> Interview) list" where
  "db_set k v db = AList.update k v db"

definition db_del :: "string \<Rightarrow> (string \<times> Interview) list \<Rightarrow> (string \<times> Interview) list" where
  "db_del k db = AList.delete k db"

subsection \<open>Upload: \<^verbatim>\<open>upload_interview\<close>\<close>

text \<open>
  The uploaded file as the framework hands it over. \<open>uf_filename\<close> and \<open>content_type\<close>
  may be absent; \<open>headers\<close> is absent when the object has no such attribute.
\<close>

record UploadFile =
  uf_filename :: "string option"
  content_type :: "string option"
  headers :: "(string \<times> string) list option"
  contents :: bytes

text \<open>
  What the handler reads from outside: the identifier \<^verbatim>\<open>str(uuid4())\<close>, the three clock
  readings of the default factories of the record, and the outcome of the upload to the
  remote store (the \<^verbatim>\<open>secure_url\<close> and the \<^verbatim>\<open>public_id\<close> of the answer, or an
  exception).
\<close>

record upload_env =
  uuid4 :: string
  now_upload_date :: datetime
  now_created_at :: datetime
  now_updated_at :: datetime
  cloudinary_upload :: "exn + (string option \<times> string option)"

text \<open>Truth value of an optional string: \<^verbatim>\<open>None\<close> and the empty string are false.\<close>

definition truthy :: "string option \<Rightarrow> bool" where
  "truthy s = (case s of None \<Rightarrow> False | Some v \<Rightarrow> v \<noteq> [])"

text \<open>\<^verbatim>\<open>str(x)\<close> of an optional string, as an f-string renders it.\<close>

definition str_opt :: "string option \<Rightarrow> string" where
  "str_opt s = (case s of None \<Rightarrow> ''None'' | Some v \<Rightarrow> v)"

text \<open>Lines 167 to 181: the file name, or the one of the content-disposition header.\<close>

definition original_filename :: "UploadFile \<Rightarrow> string" where
  "original_filename file =
     (let orig = (case uf_filename file of
                    None \<Rightarrow> ''unknown_file''
                  | Some n \<Rightarrow> if n = [] then ''unknown_file'' else n)
      in if \<not> truthy (uf_filename file)
         then (case headers file of
                 None \<Rightarrow> orig
               | Some hs \<Rightarrow>
                   (let content_disposition =
                          (case map_of hs ''content-disposition'' of None \<Rightarrow> [] | Some v \<Rightarrow> v)
                    in if py_in ''filename='' content_disposition
                       then (case cd_filename content_disposition of
                               Some g \<Rightarrow> g
                             | None \<Rightarrow> orig)
                       else orig))
         else orig)"

definition content_type_to_ext :: "(string \<times> string) list" where
  "content_type_to_ext =
     [(''audio/mpeg'', ''.mp3''),
      (''audio/wav'', ''.wav''),
      (''audio/mp3'', ''.mp3''),
      (''video/mp4'', ''.mp4''),
      (''video/quicktime'', ''.mov''),
      (''video/x-msvideo'', ''.avi'')]"

definition allowed_extensions :: "string list" where
  "allowed_extensions = [''.mp3'', ''.wav'', ''.mp4'', ''.mov'', ''mp3'', ''wav'', ''mp4'', ''mov'']"

text \<open>Lines 184 to 205: the extension of the lower-cased name, or one inferred from the
  content type, or \<^verbatim>\<open>.mp4\<close>.\<close>

definition infer_ext :: "string \<Rightarrow> string option \<Rightarrow> string" where
  "infer_ext original ct =
     (let ext = snd (splitext (lower original))
      in if ext = []
         then (case ct of
                 None \<Rightarrow> ''.mp4''
               | Some c \<Rightarrow>
                   if c = [] then ''.mp4''
                   else (case map_of content_type_to_ext (lower c) of
                           Some e \<Rightarrow> e
                         | None \<Rightarrow> ''.mp4''))
         else ext)"

definition unsupported_detail :: "string \<Rightarrow> string option \<Rightarrow> string \<Rightarrow> string" where
  "unsupported_detail ext ct original =
     ''Unsupported format '' @ [CHR 0x27] @ ext @ [CHR 0x27]
       @ ''. Allowed formats: MP3, WAV, MP4, MOV. Content-Type: '' @ str_opt ct
       @ ''. Filename: '' @ original"

text \<open>Lines 207 to 225: the allow-list with its relaxation, then the leading dot.\<close>

definition check_ext :: "string \<Rightarrow> string option \<Rightarrow> string \<Rightarrow> exn + string" where
  "check_ext original ct ext0 =
     (let r = (if ext0 \<notin> set allowed_extensions \<and> lstrip_dot ext0 \<notin> set allowed_extensions
               then (if truthy ct \<and> py_in ''video'' (lower (str_opt ct)) then Inr ''.mp4''
                     else if truthy ct \<and> py_in ''audio'' (lower (str_opt ct)) then Inr ''.mp3''
                     else Inl (HTTPException 400 (unsupported_detail ext0 ct original)))
               else Inr ext0)
      in case r of
           Inl e \<Rightarrow> Inl e
         | Inr ext \<Rightarrow> Inr (if \<not> startswith_dot ext then ''.'' @ ext else ext))"

definition upload_interview ::
  "config \<Rightarrow> upload_env \<Rightarrow> UploadFile \<Rightarrow> world \<Rightarrow> (exn + Interview) \<times> world" where
  "upload_interview cfg env file w =
     (let original = original_filename file
      in case check_ext original (content_type file) (infer_ext original (content_type file)) of
           Inl e \<Rightarrow> (Inl e, w)
         | Inr ext \<Rightarrow>
             if length (contents file) > 100 * 1024 * 1024
             then (Inl (HTTPException 400 ''File too large (>100MB)''), w)
             else
               (let file_id = uuid4 env;
                    stored_name = file_id @ ext;
                    out_path = path_join (UPLOAD_DIR cfg) stored_name;
                    w1 = w\<lparr>files := (files w)(out_path \<mapsto> contents file)\<rparr>;
                    uploaded = (if USE_CLOUDINARY cfg
                                then (case cloudinary_upload env of
                                        Inl e \<Rightarrow> None
                                      | Inr res \<Rightarrow> Some res)
                                else None);
                    w2 = (case uploaded of
                            None \<Rightarrow> w1
                          | Some res \<Rightarrow>
                              w1\<lparr>cloud := (cloud w1)((''interview_'' @ file_id) \<mapsto> contents file)\<rparr>);
                    interview =
                      \<lparr>iv_id = file_id, filename = stored_name, original_name = original,
                       file_size = length (contents file), file_path = out_path,
                       cloudinary_url = (case uploaded of None \<Rightarrow> None | Some res \<Rightarrow> fst res),
                       cloudinary_public_id = (case uploaded of None \<Rightarrow> None | Some res \<Rightarrow> snd res),
                       upload_date = now_upload_date env, status = ''uploaded'',
                       transcript = None, analysis = None, tags = [],
                       created_at = now_created_at env, updated_at = now_updated_at env\<rparr>
                in (Inr interview, w2\<lparr>DB := db_set file_id interview (DB w2)\<rparr>)))"

subsection \<open>The transcription simulator and \<^verbatim>\<open>transcribe\<close>\<close>

text \<open>
  \<^verbatim>\<open>DB[k].field = v\<close>: the record is looked up (a \<^verbatim>\<open>KeyError\<close> when the key is
  absent) and changed in place.
\<close>

definition db_modify ::
  "string \<Rightarrow> (Interview \<Rightarrow> Interview) \<Rightarrow> (string \<times> Interview) list
     \<Rightarrow> exn + (string \<times> Interview) list" where
  "db_modify k f db =
     (case db_get db k of
        None \<Rightarrow> Inl (KeyError k)
      | Some r \<Rightarrow> Inr (db_set k (f r) db))"

text \<open>
  One statement of \<^verbatim>\<open>_simulate_transcription\<close>. The seven statements of the
  \<^verbatim>\<open>try\<close> block are \<open>P_processing\<close>, \<open>P_updated1\<close>, \<open>P_sleep\<close>, \<open>P_transcript\<close>,
  \<open>P_analysis\<close>, \<open>P_completed\<close> and \<open>P_updated2\<close>; an exception in one of them enters
  the handler, whose two statements are \<open>H_failed\<close> and \<open>H_updated\<close>; an exception in the
  handler leaves the function (\<open>Raised\<close>). In an assignment the right-hand side is
  evaluated before the record is looked up.
\<close>

definition try_stmt ::
  "pc \<Rightarrow> exn + (string \<times> Interview) list \<Rightarrow> (string \<times> Interview) list
     \<Rightarrow> pc \<times> (string \<times> Interview) list" where
  "try_stmt next r db = (case r of Inl e \<Rightarrow> (H_failed, db) | Inr db' \<Rightarrow> (next, db'))"

definition handler_stmt ::
  "pc \<Rightarrow> exn + (string \<times> Interview) list \<Rightarrow> (string \<times> Interview) list
     \<Rightarrow> pc \<times> (string \<times> Interview) list" where
  "handler_stmt next r db = (case r of Inl e \<Rightarrow> (Raised e, db) | Inr db' \<Rightarrow> (next, db'))"

fun sim_step ::
  "config \<Rightarrow> datetime \<Rightarrow> string \<Rightarrow> pc \<Rightarrow> (string \<times> Interview) list
     \<Rightarrow> pc \<times> (string \<times> Interview) list" where
  "sim_step cfg now k P_processing db =
     try_stmt P_updated1 (db_modify k (\<lambda>r. r\<lparr>status := ''processing''\<rparr>) db) db"
| "sim_step cfg now k P_updated1 db =
     try_stmt P_sleep (db_modify k (\<lambda>r. r\<lparr>updated_at := now\<rparr>) db) db"
| "sim_step cfg now k P_sleep db = (P_transcript, db)"
| "sim_step cfg now k P_transcript db =
     (case sample_transcript cfg of
        Inl e \<Rightarrow> (H_failed, db)
      | Inr ts \<Rightarrow> try_stmt P_analysis (db_modify k (\<lambda>r. r\<lparr>transcript := Some ts\<rparr>) db) db)"
| "sim_step cfg now k P_analysis db =
     (case sample_analysis cfg of
        Inl e \<Rightarrow> (H_failed, db)
      | Inr a \<Rightarrow> try_stmt P_completed (db_modify k (\<lambda>r. r\<lparr>analysis := Some a\<rparr>) db) db)"
| "sim_step cfg now k P_completed db =
     try_stmt P_updated2 (db_modify k (\<lambda>r. r\<lparr>status := ''completed''\<rparr>) db) db"
| "sim_step cfg now k P_updated2 db =
     try_stmt Returned (db_modify k (\<lambda>r. r\<lparr>updated_at := now\<rparr>) db) db"
| "sim_step cfg now k H_failed db =
     handler_stmt H_updated (db_modify k (\<lambda>r. r\<lparr>status := ''failed''\<rparr>) db) db"
| "sim_step cfg now k H_updated db =
     handler_stmt Returned (db_modify k (\<lambda>r. r\<lparr>updated_at := now\<rparr>) db) db"
| "sim_step cfg now k Returned db = (Returned, db)"
| "sim_step cfg now k (Raised e) db = (Raised e, db)"

text \<open>
  The whole function run without interruption: at most nine statements are executed (seven
  of the \<^verbatim>\<open>try\<close> block and two of the handler). \<open>clock\<close> gives the reading of
  \<^verbatim>\<open>datetime.utcnow()\<close> at each statement.
\<close>

definition simulate_transcription ::
  "config \<Rightarrow> (pc \<Rightarrow> datetime) \<Rightarrow> string \<Rightarrow> (string \<times> Interview) list
     \<Rightarrow> pc \<times> (string \<times> Interview) list" where
  "simulate_transcription cfg clock k db =
     ((\<lambda>(p, d). sim_step cfg (clock p) k p d) ^^ 9) (P_processing, db)"

text \<open>
  \<^verbatim>\<open>transcribe\<close>: the answer is the pair of \<^verbatim>\<open>ok\<close> and \<^verbatim>\<open>status\<close>;
  \<^verbatim>\<open>background_tasks.add_task\<close> appends a run of the simulator to the tasks of the world.
\<close>

definition transcribe :: "string \<Rightarrow> world \<Rightarrow> (exn + bool \<times> string) \<times> world" where
  "transcribe interview_id w =
     (case db_get (DB w) interview_id of
        None \<Rightarrow> (Inl (HTTPException 404 ''Interview not found''), w)
      | Some interview \<Rightarrow>
          if status interview \<in> set [''processing'', ''completed'']
          then (Inr (True, status interview), w)
          else (Inr (True, ''processing''),
                w\<lparr>tasks := tasks w @ [(interview_id, P_processing)]\<rparr>))"

text \<open>\<^verbatim>\<open>status\<close>: the status of a record.\<close>

definition get_status :: "string \<Rightarrow> world \<Rightarrow> exn + string" where
  "get_status interview_id w =
     (case db_get (DB w) interview_id of
        None \<Rightarrow> Inl (HTTPException 404 ''Interview not found'')
      | Some interview \<Rightarrow> Inr (status interview))"

subsection \<open>Tags and deletion\<close>

definition add_tag :: "string \<Rightarrow> Tag \<Rightarrow> datetime \<Rightarrow> world \<Rightarrow> (exn + Tag) \<times> world" where
  "add_tag interview_id tag now w =
     (case db_get (DB w) interview_id of
        None \<Rightarrow> (Inl (HTTPException 404 ''Interview not found''), w)
      | Some interview \<Rightarrow>
          (Inr tag,
           w\<lparr>DB := db_set interview_id
                      (interview\<lparr>tags := tags interview @ [tag], updated_at := now\<rparr>) (DB w)\<rparr>))"

definition delete_tag :: "string \<Rightarrow> string \<Rightarrow> datetime \<Rightarrow> world \<Rightarrow> (exn + bool) \<times> world" where
  "delete_tag interview_id tid now w =
     (case db_get (DB w) interview_id of
        None \<Rightarrow> (Inl (HTTPException 404 ''Interview not found''), w)
      | Some interview \<Rightarrow>
          (Inr True,
           w\<lparr>DB := db_set interview_id
                      (interview\<lparr>tags := filter (\<lambda>tag. tag_id tag \<noteq> tid) (tags interview),
                                 updated_at := now\<rparr>) (DB w)\<rparr>))"

text \<open>
  \<^verbatim>\<open>delete_interview\<close>. \<open>destroy_ok\<close> and \<open>remove_ok\<close> tell whether the remote store
  and the file system carry their deletion out; a failure of either is swallowed.
\<close>

definition delete_interview ::
  "config \<Rightarrow> bool \<Rightarrow> bool \<Rightarrow> string \<Rightarrow> world \<Rightarrow> (exn + bool \<times> string) \<times> world" where
  "delete_interview cfg destroy_ok remove_ok interview_id w =
     (case db_get (DB w) interview_id of
        None \<Rightarrow> (Inl (HTTPException 404 ''Interview not found''), w)
      | Some interview \<Rightarrow>
          (let w1 = (case cloudinary_public_id interview of
                       None \<Rightarrow> w
                     | Some pid \<Rightarrow>
                         if USE_CLOUDINARY cfg \<and> pid \<noteq> [] \<and> destroy_ok
                         then w\<lparr>cloud := (cloud w)(pid := None)\<rparr> else w);
               w2 = (if files w1 (file_path interview) \<noteq> None \<and> remove_ok
                     then w1\<lparr>files := (files w1)(file_path interview := None)\<rparr> else w1)
           in (Inr (True, ''Interview deleted successfully''),
               w2\<lparr>DB := db_del interview_id (DB w2)\<rparr>)))"

subsection \<open>Search: \<^verbatim>\<open>search_transcript\<close>\<close>

text \<open>
  \<^verbatim>\<open>re.search(pattern, text, flags)\<close> of the Python library, as far as it is needed.
  The metacharacters of a pattern are \<^verbatim>\<open>. ^ $ * + ? { } [ ] \ | ( )\<close>. Two kinds of pattern
  are modelled: a pattern of plain ASCII characters and dots, which matches where each
  plain character meets itself (or, under \<^verbatim>\<open>re.IGNORECASE\<close>, its other case) and each dot
  meets any character but the newline; and a pattern of plain characters, dots and
  parentheses whose parentheses do not balance, which raises \<^verbatim>\<open>re.error\<close>. Every other
  pattern is handed to the parameter \<open>lib\<close>, which stands for the rest of the library.
\<close>

definition re_special :: "char list" where
  "re_special = ''.^$*+?{}[]|()'' @ [CHR 0x5C]"

definition re_plain :: "char \<Rightarrow> bool" where
  "re_plain c = ((of_char c :: nat) < 128 \<and> c \<notin> set re_special)"

definition newline :: char where
  "newline = CHR 0x0A"

definition char_matches :: "bool \<Rightarrow> char \<Rightarrow> char \<Rightarrow> bool" where
  "char_matches ignorecase p c =
     (if p = CHR ''.'' then c \<noteq> newline
      else if ignorecase then lower_char p = lower_char c
      else p = c)"

fun match_here :: "bool \<Rightarrow> string \<Rightarrow> string \<Rightarrow> bool" where
  "match_here ignorecase [] t = True"
| "match_here ignorecase (p # ps) [] = False"
| "match_here ignorecase (p # ps) (c # cs) =
     (char_matches ignorecase p c \<and> match_here ignorecase ps cs)"

fun match_anywhere :: "bool \<Rightarrow> string \<Rightarrow> string \<Rightarrow> bool" where
  "match_anywhere ignorecase pat [] = match_here ignorecase pat []"
| "match_anywhere ignorecase pat (c # cs) =
     (match_here ignorecase pat (c # cs) \<or> match_anywhere ignorecase pat cs)"

fun parens_balanced :: "nat \<Rightarrow> string \<Rightarrow> bool" where
  "parens_balanced depth [] = (depth = 0)"
| "parens_balanced depth (c # cs) =
     (if c = CHR ''('' then parens_balanced (Suc depth) cs
      else if c = CHR '')'' then (depth \<noteq> 0 \<and> parens_balanced (depth - 1) cs)
      else parens_balanced depth cs)"

definition re_search ::
  "(string \<Rightarrow> string \<Rightarrow> bool \<Rightarrow> exn + bool) \<Rightarrow> string \<Rightarrow> string \<Rightarrow> bool \<Rightarrow> exn + bool" where
  "re_search lib pat txt ignorecase =
     (if \<forall>c \<in> set pat. re_plain c \<or> c = CHR ''.''
      then Inr (match_anywhere ignorecase pat txt)
      else if (\<forall>c \<in> set pat. re_plain c \<or> c = CHR ''.'' \<or> c = CHR ''('' \<or> c = CHR '')'')
              \<and> \<not> parens_balanced 0 pat
      then Inl (ReError pat)
      else lib pat txt ignorecase)"

text \<open>The loop over \<^verbatim>\<open>enumerate(interview.transcript)\<close>, from index \<open>i\<close> on.\<close>

fun search_loop ::
  "(string \<Rightarrow> string \<Rightarrow> bool \<Rightarrow> exn + bool) \<Rightarrow> string \<Rightarrow> bool \<Rightarrow> nat \<Rightarrow> TranscriptItem list
     \<Rightarrow> exn + SearchResult list" where
  "search_loop lib query ignorecase i [] = Inr []"
| "search_loop lib query ignorecase i (item # rest) =
     (case re_search lib query (item_text item) ignorecase of
        Inl e \<Rightarrow> Inl e
      | Inr m \<Rightarrow>
          (case search_loop lib query ignorecase (Suc i) rest of
             Inl e \<Rightarrow> Inl e
           | Inr results \<Rightarrow>
               Inr (if m
                    then \<lparr>sr_text = item_text item, sr_start_time = item_start item,
                          sr_end_time = item_end item, line_number = i\<rparr> # results
                    else results)))"

text \<open>
  The answer is the pair of \<^verbatim>\<open>results\<close> and \<^verbatim>\<open>total\<close>. The framework refuses an
  empty query (\<^verbatim>\<open>min_length=1\<close>) with the code 422 before the handler runs.
\<close>

definition search_transcript ::
  "(string \<Rightarrow> string \<Rightarrow> bool \<Rightarrow> exn + bool) \<Rightarrow> string \<Rightarrow> string \<Rightarrow> bool \<Rightarrow> world
     \<Rightarrow> exn + SearchResult list \<times> nat" where
  "search_transcript lib interview_id query case_sensitive w =
     (if query = [] then Inl (HTTPException 422 ''query: min_length'')
      else case db_get (DB w) interview_id of
        None \<Rightarrow> Inl (HTTPException 404 ''Interview not found'')
      | Some interview \<Rightarrow>
          (case transcript interview of
             None \<Rightarrow> Inl (HTTPException 404 ''Transcript not available'')
           | Some [] \<Rightarrow> Inl (HTTPException 404 ''Transcript not available'')
           | Some (item # rest) \<Rightarrow>
               (case search_loop lib query (\<not> case_sensitive) 0 (item # rest) of
                  Inl e \<Rightarrow> Inl e
                | Inr results \<Rightarrow> Inr (results, length results))))"

subsection \<open>Export: \<^verbatim>\<open>export_interview\<close>\<close>

datatype export =
    ExportJson Interview datetime
  | ExportTxt string string

definition transcript_line :: "TranscriptItem \<Rightarrow> string" where
  "transcript_line item =
     ''['' @ format_1f (item_start item) @ ''s - '' @ format_1f (item_end item) @ ''s] ''
       @ item_text item @ [newline]"

definition tag_line :: "Tag \<Rightarrow> string" where
  "tag_line tag =
     ''['' @ format_1f (start_time tag) @ ''s - '' @ format_1f (end_time tag) @ ''s] ''
       @ tag_text tag @ [newline]"

text \<open>The text layout. \<open>str_datetime\<close> renders a time stamp as \<^verbatim>\<open>str\<close> does.\<close>

definition export_txt :: "(datetime \<Rightarrow> string) \<Rightarrow> Interview \<Rightarrow> string" where
  "export_txt str_datetime interview =
     ''Interview: '' @ original_name interview @ [newline]
     @ ''Upload Date: '' @ str_datetime (upload_date interview) @ [newline]
     @ ''Status: '' @ status interview @ [newline, newline]
     @ (case analysis interview of
          None \<Rightarrow> []
        | Some a \<Rightarrow>
            (case summary a of
               None \<Rightarrow> []
             | Some s \<Rightarrow> if s = [] then [] else ''SUMMARY:'' @ [newline] @ s @ [newline, newline]))
     @ (case transcript interview of
          None \<Rightarrow> []
        | Some ts \<Rightarrow>
            if ts = [] then [] else ''TRANSCRIPT:'' @ [newline] @ concat (map transcript_line ts))
     @ (if tags interview = [] then []
        else [newline] @ ''TAGS:'' @ [newline] @ concat (map tag_line (tags interview)))"

definition export_interview ::
  "(datetime \<Rightarrow> string) \<Rightarrow> datetime \<Rightarrow> string \<Rightarrow> string \<Rightarrow> world \<Rightarrow> exn + export" where
  "export_interview str_datetime now interview_id format w =
     (case db_get (DB w) interview_id of
        None \<Rightarrow> Inl (HTTPException 404 ''Interview not found'')
      | Some interview \<Rightarrow>
          if lower format = ''json'' then Inr (ExportJson interview now)
          else if lower format = ''txt''
          then Inr (ExportTxt (export_txt str_datetime interview) (interview_id @ ''_export.txt''))
          else Inl (HTTPException 400 ''Unsupported format''))"

subsection \<open>Statistics: \<^verbatim>\<open>get_stats\<close>\<close>

record stats =
  total_interviews :: nat
  completed_interviews :: nat
  processing_interviews :: nat
  failed_interviews :: nat
  total_duration_minutes :: rat
  average_duration_minutes :: rat

text \<open>Truth value of \<^verbatim>\<open>i.transcript\<close>: \<^verbatim>\<open>None\<close> and the empty list are false.\<close>

definition has_transcript :: "Interview \<Rightarrow> bool" where
  "has_transcript i = (case transcript i of None \<Rightarrow> False | Some ts \<Rightarrow> ts \<noteq> [])"

text \<open>\<^verbatim>\<open>i.transcript[-1].end if i.transcript else 0\<close>.\<close>

definition last_end :: "Interview \<Rightarrow> rat" where
  "last_end i =
     (case transcript i of
        None \<Rightarrow> 0
      | Some ts \<Rightarrow> if ts = [] then 0 else item_end (last ts))"

text \<open>
  The arithmetic of \<^verbatim>\<open>get_stats\<close> is IEEE double arithmetic, whose roundings are not
  modelled: the three operations it uses are parameters. \<open>fl_add\<close> is the float sum that
  \<^verbatim>\<open>sum\<close> forms from left to right, \<open>fl_div\<close> the float quotient and \<open>fl_round2\<close>
  is \<^verbatim>\<open>round(x, 2)\<close>.
\<close>

record float_ops =
  fl_add :: "rat \<Rightarrow> rat \<Rightarrow> rat"
  fl_div :: "rat \<Rightarrow> rat \<Rightarrow> rat"
  fl_round2 :: "rat \<Rightarrow> rat"

text \<open>\<^verbatim>\<open>sum(... for i in DB.values() if i.transcript)\<close>, starting from 0.\<close>

definition total_duration :: "float_ops \<Rightarrow> (string \<times> Interview) list \<Rightarrow> rat" where
  "total_duration ops db =
     foldl (fl_add ops) 0 (map last_end (filter has_transcript (map snd db)))"

definition count_status :: "string \<Rightarrow> (string \<times> Interview) list \<Rightarrow> nat" where
  "count_status s db = length (filter (\<lambda>i. status i = s) (map snd db))"

definition get_stats :: "float_ops \<Rightarrow> world \<Rightarrow> stats" where
  "get_stats ops w =
     (let completed = count_status ''completed'' (DB w);
          total = total_duration ops (DB w)
      in \<lparr>total_interviews = length (DB w),
          completed_interviews = completed,
          processing_interviews = count_status ''processing'' (DB w),
          failed_interviews = count_status ''failed'' (DB w),
          total_duration_minutes = fl_round2 ops (fl_div ops total 60),
          average_duration_minutes =
            (if completed > 0
             then fl_round2 ops (fl_div ops (fl_div ops total 60) (of_nat completed))
             else 0)\<rparr>)"

text \<open>
  Arithmetic without rounding error, for the evaluation of concrete inputs: exact sum and
  quotient, and rounding of the exact value to two decimals.
\<close>

definition exact_arithmetic :: float_ops where
  "exact_arithmetic = \<lparr>fl_add = (+), fl_div = (/), fl_round2 = round2\<rparr>"

subsection \<open>The service as a transition system\<close>

text \<open>
  The handlers that change the world run one at a time; a scheduled run of the simulator
  executes in a worker thread, so its statements interleave with the handlers and with
  the statements of other runs. \<open>SimStep i now\<close> lets the task at position \<open>i\<close>
  execute its next statement.
\<close>

datatype event =
    Upload upload_env UploadFile
  | Transcribe string
  | SimStep nat datetime
  | AddTag string Tag datetime
  | DeleteTag string string datetime
  | DeleteInterview bool bool string

fun step :: "config \<Rightarrow> event \<Rightarrow> world \<Rightarrow> world" where
  "step cfg (Upload env file) w = snd (upload_interview cfg env file w)"
| "step cfg (Transcribe k) w = snd (transcribe k w)"
| "step cfg (SimStep i now) w =
     (if i < length (tasks w)
      then (let k = fst (tasks w ! i);
                r = sim_step cfg now k (snd (tasks w ! i)) (DB w)
            in w\<lparr>DB := snd r, tasks := (tasks w)[i := (k, fst r)]\<rparr>)
      else w)"
| "step cfg (AddTag k tag now) w = snd (add_tag k tag now w)"
| "step cfg (DeleteTag k tid now) w = snd (delete_tag k tid now w)"
| "step cfg (DeleteInterview destroy_ok remove_ok k) w =
     snd (delete_interview cfg destroy_ok remove_ok k w)"

definition run :: "config \<Rightarrow> event list \<Rightarrow> world \<Rightarrow> world" where
  "run cfg evs w = foldl (\<lambda>w e. step cfg e w) w evs"

text \<open>The identifiers drawn by the uploads of a trace; \<^verbatim>\<open>uuid4\<close> never repeats one.\<close>

fun upload_ids :: "event list \<Rightarrow> string list" where
  "upload_ids [] = []"
| "upload_ids (Upload env file # evs) = uuid4 env # upload_ids evs"
| "upload_ids (e # evs) = upload_ids evs"

subsection \<open>Concrete inputs\<close>

definition env1 :: upload_env where
  "env1 = \<lparr>uuid4 = ''i1'', now_upload_date = 1, now_created_at = 1, now_updated_at = 1,
           cloudinary_upload = Inl (OtherError ''not configured'')\<rparr>"

definition clip_file :: "string \<Rightarrow> UploadFile" where
  "clip_file ct =
     \<lparr>uf_filename = Some ''clip'', content_type = Some ct, headers = Some [],
      contents = ''data''\<rparr>"

text \<open>One upload of \<^verbatim>\<open>clip\<close> and a request to transcribe it.\<close>

definition scheduled_trace :: "event list" where
  "scheduled_trace = [Upload env1 (clip_file ''video/mp4''), Transcribe ''i1'']"

text \<open>A configuration whose \<^verbatim>\<open>sample_analysis.json\<close> does not fit the class
  \<^verbatim>\<open>Analysis\<close>: building the analysis raises.\<close>

definition bad_analysis_config :: config where
  "bad_analysis_config =
     default_config\<lparr>sample_analysis := Inl (OtherError ''ValidationError'')\<rparr>"

text \<open>An upload of one byte more than 100 MiB.\<close>

definition big_file :: UploadFile where
  "big_file =
     \<lparr>uf_filename = Some ''talk.mp3'', content_type = Some ''audio/mpeg'',
      headers = Some [], contents = replicate (100 * 1024 * 1024 + 1) (CHR ''x'')\<rparr>"

text \<open>The record and the world that this upload produces.\<close>

definition clip_record :: Interview where
  "clip_record =
     \<lparr>iv_id = ''i1'', filename = ''i1.mp4'', original_name = ''clip'', file_size = 4,
      file_path = ''./uploads/i1.mp4'', cloudinary_url = None, cloudinary_public_id = None,
      upload_date = 1, status = ''uploaded'', transcript = None, analysis = None, tags = [],
      created_at = 1, updated_at = 1\<rparr>"

definition uploaded_world :: world where
  "uploaded_world =
     \<lparr>DB = [(''i1'', clip_record)], files = [''./uploads/i1.mp4'' \<mapsto> ''data''],
      cloud = Map.empty, tasks = []\<rparr>"

text \<open>A tag, and the world in which the uploaded record carries it.\<close>

definition tag1 :: Tag where
  "tag1 =
     \<lparr>tag_id = ''t1'', tag_text = ''introduction'', start_time = 0, end_time = 5 / 2,
      color = ''#3B82F6'', tag_created_at = 2\<rparr>"

definition tagged_world :: world where
  "tagged_world = uploaded_world\<lparr>DB := [(''i1'', clip_record\<lparr>tags := [tag1], updated_at := 2\<rparr>)]\<rparr>"

text \<open>The world with the one record \<open>r\<close> under the key \<^verbatim>\<open>i1\<close> and one task at \<open>p\<close>.\<close>

definition sim_world :: "pc \<Rightarrow> Interview \<Rightarrow> world" where
  "sim_world p r = uploaded_world\<lparr>DB := [(''i1'', r)], tasks := [(''i1'', p)]\<rparr>"

text \<open>The scheduled run executed to its end, without any other event in between.\<close>

definition full_run_trace :: "event list" where
  "full_run_trace =
     scheduled_trace @ [SimStep 0 2, SimStep 0 2, SimStep 0 2, SimStep 0 4, SimStep 0 4,
                        SimStep 0 4, SimStep 0 4]"

text \<open>The scheduled run up to and including the statement that attaches the transcript.\<close>

definition attach_trace :: "event list" where
  "attach_trace = scheduled_trace @ [SimStep 0 2, SimStep 0 2, SimStep 0 2, SimStep 0 4]"

text \<open>The record is deleted while the scheduled run sleeps.\<close>

definition deleted_trace :: "event list" where
  "deleted_trace =
     scheduled_trace @ [SimStep 0 2, SimStep 0 2, SimStep 0 2, DeleteInterview True True ''i1'',
                        SimStep 0 4, SimStep 0 4]"

text \<open>
  The reading of the search that the specification gives, for comparison with
  \<open>search_transcript\<close>: the segments whose text contains the query when case is
  ignored, in order, each with its zero-based index.
\<close>

definition segments_containing :: "string \<Rightarrow> TranscriptItem list \<Rightarrow> SearchResult list" where
  "segments_containing query ts =
     map (\<lambda>(i, item). \<lparr>sr_text = item_text item, sr_start_time = item_start item,
                        sr_end_time = item_end item, line_number = i\<rparr>)
       (filter (\<lambda>(i, item). py_in (lower query) (lower (item_text item))) (enumerate 0 ts))"

text \<open>A stand-in for the part of \<^verbatim>\<open>re.search\<close> that is not modelled.\<close>

definition no_lib :: "string \<Rightarrow> string \<Rightarrow> bool \<Rightarrow> exn + bool" where
  "no_lib pat txt ignorecase = Inl (OtherError ''pattern outside the modelled fragment'')"

text \<open>\<^verbatim>\<open>s.split('\n')\<close>: the lines of a text.\<close>

fun split_lines :: "string \<Rightarrow> string list" where
  "split_lines [] = [[]]"
| "split_lines (c # cs) =
     (if c = newline then [] # split_lines cs
      else (case split_lines cs of
              [] \<Rightarrow> [[c]]
            | l # ls \<Rightarrow> (c # l) # ls))"

text \<open>A record with the single segment of the example, and a stand-in for the rendering
  of a time stamp.\<close>

definition yes_item :: TranscriptItem where
  "yes_item = \<lparr>item_start = 10, item_end = 12, item_text = ''Yes.''\<rparr>"

definition yes_world :: world where
  "yes_world =
     uploaded_world\<lparr>DB := [(''i1'', clip_record\<lparr>status := ''completed'',
        transcript := Some [yes_item], analysis := Some SAMPLE_ANALYSIS\<rparr>)]\<rparr>"

text \<open>The line of a segment in the text export, without the newline that ends it.\<close>

definition line_text :: "TranscriptItem \<Rightarrow> string" where
  "line_text item =
     ''['' @ format_1f (item_start item) @ ''s - '' @ format_1f (item_end item) @ ''s] ''
       @ item_text item"

text \<open>
  A run has \<open>finished\<close> when it has returned or raised. No run is pending for a key when
  every task scheduled for it has finished.
\<close>

definition finished :: "pc \<Rightarrow> bool" where
  "finished p = (case p of Returned \<Rightarrow> True | Raised e \<Rightarrow> True | _ \<Rightarrow> False)"

definition no_run_pending :: "string \<Rightarrow> world \<Rightarrow> bool" where
  "no_run_pending k w = list_all (\<lambda>t. fst t \<noteq> k \<or> finished (snd t)) (tasks w)"


definition keeps_status :: "string \<Rightarrow> string \<Rightarrow> world \<Rightarrow> bool" where
  "keeps_status s k w =
     ((case db_get (DB w) k of None \<Rightarrow> True | Some r \<Rightarrow> status r = s)
      \<and> no_run_pending k w)"

text \<open>The world with the one record \<open>r\<close> under the key \<^verbatim>\<open>i1\<close> and two tasks for it.\<close>

definition sim_world2 :: "pc \<Rightarrow> pc \<Rightarrow> Interview \<Rightarrow> world" where
  "sim_world2 p q r = uploaded_world\<lparr>DB := [(''i1'', r)], tasks := [(''i1'', p), (''i1'', q)]\<rparr>"

text \<open>
  Two requests to transcribe arrive before the first scheduled run executes its first
  statement; the first run is then executed to its end.
\<close>

definition duplicate_trace :: "event list" where
  "duplicate_trace =
     scheduled_trace @ [Transcribe ''i1'', SimStep 0 2, SimStep 0 2, SimStep 0 2, SimStep 0 4,
                        SimStep 0 4, SimStep 0 4, SimStep 0 4]"

text \<open>
  The invariant of the reachable worlds. \<open>good_samples\<close>: both sample objects can be
  built. \<open>record_inv\<close> is what holds of every record in the store, \<open>task_inv\<close> what holds
  of the record of a pending run, as long as the record exists, when the run is about to
  execute the statement \<open>p\<close>. \<open>world_inv\<close> puts the two together; \<open>ids\<close> are the
  identifiers that uploads have drawn so far.
\<close>

definition good_samples :: "config \<Rightarrow> bool" where
  "good_samples cfg =
     (case sample_transcript cfg of
        Inl e \<Rightarrow> False
      | Inr ts \<Rightarrow> (case sample_analysis cfg of Inl e \<Rightarrow> False | Inr a \<Rightarrow> True))"

definition record_inv :: "config \<Rightarrow> Interview \<Rightarrow> bool" where
  "record_inv cfg r =
     ((status r = ''uploaded'' \<longrightarrow> transcript r = None \<and> analysis r = None)
      \<and> (status r = ''completed'' \<longrightarrow> transcript r \<noteq> None \<and> analysis r \<noteq> None)
      \<and> (analysis r \<noteq> None \<longrightarrow> transcript r \<noteq> None)
      \<and> (good_samples cfg \<longrightarrow> status r \<noteq> ''failed'')
      \<and> (\<not> good_samples cfg \<longrightarrow> analysis r = None))"

definition task_inv :: "config \<Rightarrow> pc \<Rightarrow> Interview \<Rightarrow> bool" where
  "task_inv cfg p r =
     (case p of
        P_processing \<Rightarrow> True
      | P_updated1 \<Rightarrow> status r \<noteq> ''uploaded''
      | P_sleep \<Rightarrow> status r \<noteq> ''uploaded''
      | P_transcript \<Rightarrow> status r \<noteq> ''uploaded''
      | P_analysis \<Rightarrow> status r \<noteq> ''uploaded'' \<and> transcript r \<noteq> None
          \<and> (\<exists>ts. sample_transcript cfg = Inr ts)
      | P_completed \<Rightarrow> status r \<noteq> ''uploaded'' \<and> transcript r \<noteq> None \<and> analysis r \<noteq> None
      | P_updated2 \<Rightarrow> status r \<noteq> ''uploaded''
      | H_failed \<Rightarrow> \<not> good_samples cfg
      | H_updated \<Rightarrow> \<not> good_samples cfg
      | Returned \<Rightarrow> True
      | Raised e \<Rightarrow> True)"

definition world_inv :: "config \<Rightarrow> string set \<Rightarrow> world \<Rightarrow> bool" where
  "world_inv cfg ids w =
     ((\<forall>k r. db_get (DB w) k = Some r \<longrightarrow> k \<in> ids \<and> record_inv cfg r)
      \<and> (\<forall>t \<in> set (tasks w). fst t \<in> ids
            \<and> (\<forall>r. db_get (DB w) (fst t) = Some r \<longrightarrow> task_inv cfg (snd t) r)))"

text \<open>
  What a statement of a run may do to a record: the status stays or becomes one of
  \<^verbatim>\<open>processing\<close>, \<^verbatim>\<open>completed\<close>, \<^verbatim>\<open>failed\<close>, and what is attached stays attached.
\<close>

definition advances :: "Interview \<Rightarrow> Interview \<Rightarrow> bool" where
  "advances r r' =
     ((status r' = status r \<or> status r' = ''processing'' \<or> status r' = ''completed''
         \<or> status r' = ''failed'')
      \<and> (transcript r \<noteq> None \<longrightarrow> transcript r' \<noteq> None)
      \<and> (analysis r \<noteq> None \<longrightarrow> analysis r' \<noteq> None))"

section \<open>Properties\<close>

subsection \<open>The record store and the effect of each handler on it\<close>

lemma db_get_set: "db_get (db_set k v db) k' = (if k' = k then Some v else db_get db k')"
  by (simp add: db_get_def db_set_def update_conv')

lemma db_get_del: "db_get (db_del k db) k' = (if k' = k then None else db_get db k')"
  by (simp add: db_get_def db_del_def delete_conv')

lemma db_set_set: "db_set k v (db_set k v' db) = db_set k v db"
  by (simp add: db_set_def)

lemma upload_effect:
  "tasks (snd (upload_interview cfg env file w)) = tasks w \<and>
   (DB (snd (upload_interview cfg env file w)) = DB w \<or>
    (\<exists>iv. DB (snd (upload_interview cfg env file w)) = db_set (uuid4 env) iv (DB w)
          \<and> status iv = ''uploaded'' \<and> transcript iv = None \<and> analysis iv = None))"
  by (auto simp add: upload_interview_def Let_def split: sum.split option.split)

lemma transcribe_effect:
  "DB (snd (transcribe k w)) = DB w \<and>
   (tasks (snd (transcribe k w)) = tasks w \<or>
    (tasks (snd (transcribe k w)) = tasks w @ [(k, P_processing)] \<and> db_get (DB w) k \<noteq> None))"
  by (simp add: transcribe_def del: set_simps split: option.split)

lemma add_tag_effect:
  "tasks (snd (add_tag k tag now w)) = tasks w \<and>
   (DB (snd (add_tag k tag now w)) = DB w \<or>
    (\<exists>r. db_get (DB w) k = Some r \<and>
          DB (snd (add_tag k tag now w))
            = db_set k (r\<lparr>tags := tags r @ [tag], updated_at := now\<rparr>) (DB w)))"
  by (simp add: add_tag_def split: option.split)

lemma delete_tag_effect:
  "tasks (snd (delete_tag k tid now w)) = tasks w \<and>
   (DB (snd (delete_tag k tid now w)) = DB w \<or>
    (\<exists>r. db_get (DB w) k = Some r \<and>
          DB (snd (delete_tag k tid now w))
            = db_set k (r\<lparr>tags := filter (\<lambda>tag. tag_id tag \<noteq> tid) (tags r),
                          updated_at := now\<rparr>) (DB w)))"
  by (simp add: delete_tag_def split: option.split)

lemma delete_interview_effect:
  "tasks (snd (delete_interview cfg d r k w)) = tasks w \<and>
   (DB (snd (delete_interview cfg d r k w)) = DB w \<or>
    DB (snd (delete_interview cfg d r k w)) = db_del k (DB w))"
  by (simp add: delete_interview_def Let_def split: option.split)

subsection \<open>Evaluation of the concrete inputs\<close>

lemma original_filename_clip: "original_filename (clip_file ct) = ''clip''"
  by (simp add: original_filename_def clip_file_def truthy_def)

lemma infer_ext_clip_mp4: "infer_ext ''clip'' (Some ''video/mp4'') = ''.mp4''"
  by code_simp

lemma infer_ext_clip_octet: "infer_ext ''clip'' (Some ''application/octet-stream'') = ''.mp4''"
  by code_simp

lemma check_ext_mp4: "check_ext original ct ''.mp4'' = Inr ''.mp4''"
  by (simp add: check_ext_def allowed_extensions_def startswith_dot_def)

lemma upload_clip:
  assumes "UPLOAD_DIR cfg = ''./uploads''" "\<not> USE_CLOUDINARY cfg"
    and "ct = ''video/mp4'' \<or> ct = ''application/octet-stream''"
  shows "upload_interview cfg env1 (clip_file ct) empty_world = (Inr clip_record, uploaded_world)"
proof -
  have ext: "infer_ext ''clip'' (content_type (clip_file ct)) = ''.mp4''"
    using assms(3) by (auto simp: clip_file_def infer_ext_clip_mp4 infer_ext_clip_octet)
  have c: "contents (clip_file ct) = ''data''" by (simp add: clip_file_def)
  show ?thesis
    using assms(1,2)
    by (simp add: upload_interview_def original_filename_clip ext check_ext_mp4 c
          Let_def env1_def path_join_def db_set_def empty_world_def clip_record_def
          uploaded_world_def)
qed

lemma run_scheduled:
  assumes "UPLOAD_DIR cfg = ''./uploads''" "\<not> USE_CLOUDINARY cfg"
  shows "run cfg scheduled_trace empty_world = sim_world P_processing clip_record"
proof -
  have "transcribe ''i1'' uploaded_world
      = (Inr (True, ''processing''), sim_world P_processing clip_record)"
    by (simp add: transcribe_def uploaded_world_def db_get_def clip_record_def sim_world_def)
  then show ?thesis
    using assms by (simp add: run_def scheduled_trace_def upload_clip)
qed

lemma sim_step_present:
  "sim_step cfg now k P_processing [(k, r)] = (P_updated1, [(k, r\<lparr>status := ''processing''\<rparr>)])"
  "sim_step cfg now k P_updated1 [(k, r)] = (P_sleep, [(k, r\<lparr>updated_at := now\<rparr>)])"
  "sim_step cfg now k P_sleep [(k, r)] = (P_transcript, [(k, r)])"
  "sample_transcript cfg = Inr ts \<Longrightarrow>
     sim_step cfg now k P_transcript [(k, r)] = (P_analysis, [(k, r\<lparr>transcript := Some ts\<rparr>)])"
  "sample_analysis cfg = Inr a \<Longrightarrow>
     sim_step cfg now k P_analysis [(k, r)] = (P_completed, [(k, r\<lparr>analysis := Some a\<rparr>)])"
  "sample_analysis cfg = Inl e \<Longrightarrow> sim_step cfg now k P_analysis [(k, r)] = (H_failed, [(k, r)])"
  "sim_step cfg now k P_completed [(k, r)] = (P_updated2, [(k, r\<lparr>status := ''completed''\<rparr>)])"
  "sim_step cfg now k P_updated2 [(k, r)] = (Returned, [(k, r\<lparr>updated_at := now\<rparr>)])"
  "sim_step cfg now k H_failed [(k, r)] = (H_updated, [(k, r\<lparr>status := ''failed''\<rparr>)])"
  "sim_step cfg now k H_updated [(k, r)] = (Returned, [(k, r\<lparr>updated_at := now\<rparr>)])"
  by (simp_all add: try_stmt_def handler_stmt_def db_modify_def db_get_def db_set_def)

lemma sim_step_absent:
  "sim_step cfg now k P_processing [] = (H_failed, [])"
  "sim_step cfg now k P_updated1 [] = (H_failed, [])"
  "sim_step cfg now k P_transcript [] = (H_failed, [])"
  "sim_step cfg now k P_analysis [] = (H_failed, [])"
  "sim_step cfg now k P_completed [] = (H_failed, [])"
  "sim_step cfg now k P_updated2 [] = (H_failed, [])"
  "sim_step cfg now k H_failed [] = (Raised (KeyError k), [])"
  by (simp_all add: try_stmt_def handler_stmt_def db_modify_def db_get_def split: sum.split)

lemma step_sim_world:
  "sim_step cfg now ''i1'' p [(''i1'', r)] = (p', [(''i1'', r')]) \<Longrightarrow>
   step cfg (SimStep 0 now) (sim_world p r) = sim_world p' r'"
  by (simp add: sim_world_def Let_def)

lemma run_Cons: "run cfg (e # evs) w = run cfg evs (step cfg e w)"
  by (simp add: run_def)

lemma run_Nil: "run cfg [] w = w"
  by (simp add: run_def)

lemma run_append: "run cfg (evs @ evs') w = run cfg evs' (run cfg evs w)"
  by (simp add: run_def)

lemma default_config_simps:
  "UPLOAD_DIR default_config = ''./uploads''" "\<not> USE_CLOUDINARY default_config"
  "sample_transcript default_config = Inr SAMPLE_TRANSCRIPT"
  "sample_analysis default_config = Inr SAMPLE_ANALYSIS"
  "UPLOAD_DIR bad_analysis_config = ''./uploads''" "\<not> USE_CLOUDINARY bad_analysis_config"
  "sample_transcript bad_analysis_config = Inr SAMPLE_TRANSCRIPT"
  "sample_analysis bad_analysis_config = Inl (OtherError ''ValidationError'')"
  by (simp_all add: default_config_def bad_analysis_config_def)

lemma run_full_bad:
  "run bad_analysis_config full_run_trace empty_world
     = sim_world Returned
         (clip_record\<lparr>status := ''processing'', updated_at := 2,
            transcript := Some SAMPLE_TRANSCRIPT, status := ''failed'', updated_at := 4\<rparr>)"
  unfolding full_run_trace_def run_append
    run_scheduled [OF default_config_simps(5) default_config_simps(6)]
  by (simp only: run_Cons run_Nil
        step_sim_world [OF sim_step_present(1)] step_sim_world [OF sim_step_present(2)]
        step_sim_world [OF sim_step_present(3)]
        step_sim_world [OF sim_step_present(4) [OF default_config_simps(7)]]
        step_sim_world [OF sim_step_present(6) [OF default_config_simps(8)]]
        step_sim_world [OF sim_step_present(9)] step_sim_world [OF sim_step_present(10)])

subsection \<open>Oversized uploads\<close>

lemma check_ext_error_400:
  "check_ext original ct ext0 = Inl e \<Longrightarrow> \<exists>d. e = HTTPException 400 d"
  by (auto simp: check_ext_def Let_def split: if_splits sum.splits)

text \<open>
  C6. An upload whose payload is longer than 100 MiB is answered with the code 400, and the
  world after the call is the world before it: no record in the store, no file written,
  nothing sent to the remote store.
\<close>

theorem upload_too_large_rejected:
  assumes "length (contents file) > 100 * 1024 * 1024"
  shows "\<exists>detail. upload_interview cfg env file w = (Inl (HTTPException 400 detail), w)"
proof (cases "check_ext (original_filename file) (content_type file)
                (infer_ext (original_filename file) (content_type file))")
  case (Inl e)
  then obtain d where "e = HTTPException 400 d"
    using check_ext_error_400 by blast
  with Inl show ?thesis by (simp add: upload_interview_def Let_def)
next
  case (Inr ext)
  with assms show ?thesis by (simp add: upload_interview_def Let_def)
qed

theorem upload_too_large_rejected_witness:
  "length (contents big_file) > 100 * 1024 * 1024 \<and>
   (\<exists>detail. upload_interview default_config env1 big_file empty_world
        = (Inl (HTTPException 400 detail), empty_world))"
proof -
  have h: "length (contents big_file) > 100 * 1024 * 1024" by (simp add: big_file_def)
  show ?thesis using h upload_too_large_rejected [OF h] by simp
qed

subsection \<open>Deleting a tag\<close>

text \<open>
  C9. On an existing record, deleting a tag id that the record does not carry answers ok
  and leaves the tags as they were; and deleting a tag id a second time answers ok and
  leaves the world that one deletion (at the clock reading of the second) leaves:
  the deletion is idempotent.
\<close>

theorem delete_tag_idempotent:
  assumes "db_get (DB w) k = Some r"
  shows "(tid \<notin> tag_id ` set (tags r) \<longrightarrow>
            fst (delete_tag k tid now w) = Inr True \<and>
            map_option tags (db_get (DB (snd (delete_tag k tid now w))) k) = Some (tags r))
       \<and> fst (delete_tag k tid now' (snd (delete_tag k tid now w))) = Inr True
       \<and> snd (delete_tag k tid now' (snd (delete_tag k tid now w)))
           = snd (delete_tag k tid now' w)"
proof -
  have absent: "filter (\<lambda>tag. tag_id tag \<noteq> tid) (tags r) = tags r"
    if "tid \<notin> tag_id ` set (tags r)"
    using that by (auto simp: filter_id_conv)
  have once: "delete_tag k tid t w =
      (Inr True, w\<lparr>DB := db_set k
         (r\<lparr>tags := filter (\<lambda>tag. tag_id tag \<noteq> tid) (tags r), updated_at := t\<rparr>) (DB w)\<rparr>)" for t
    using assms by (simp add: delete_tag_def)
  have twice: "delete_tag k tid now' (snd (delete_tag k tid now w)) =
      (Inr True, w\<lparr>DB := db_set k
         (r\<lparr>tags := filter (\<lambda>tag. tag_id tag \<noteq> tid) (tags r), updated_at := now'\<rparr>) (DB w)\<rparr>)"
    by (simp add: once) (simp add: delete_tag_def db_get_set db_set_set)
  show ?thesis
    unfolding twice using absent by (simp add: once db_get_set)
qed

theorem delete_tag_idempotent_witness:
  "db_get (DB tagged_world) ''i1'' = Some (clip_record\<lparr>tags := [tag1], updated_at := 2\<rparr>)
   \<and> ''t9'' \<notin> tag_id ` set (tags (clip_record\<lparr>tags := [tag1], updated_at := 2\<rparr>))
   \<and> fst (delete_tag ''i1'' ''t9'' 3 tagged_world) = Inr True
   \<and> map_option tags (db_get (DB (snd (delete_tag ''i1'' ''t9'' 3 tagged_world))) ''i1'')
       = Some (tags (clip_record\<lparr>tags := [tag1], updated_at := 2\<rparr>))
   \<and> fst (delete_tag ''i1'' ''t9'' 4 (snd (delete_tag ''i1'' ''t9'' 3 tagged_world))) = Inr True
   \<and> snd (delete_tag ''i1'' ''t9'' 4 (snd (delete_tag ''i1'' ''t9'' 3 tagged_world)))
       = snd (delete_tag ''i1'' ''t9'' 4 tagged_world)"
proof -
  have h: "db_get (DB tagged_world) ''i1'' = Some (clip_record\<lparr>tags := [tag1], updated_at := 2\<rparr>)"
    by (simp add: tagged_world_def db_get_def)
  have a: "''t9'' \<notin> tag_id ` set (tags (clip_record\<lparr>tags := [tag1], updated_at := 2\<rparr>))"
    by (simp add: tag1_def)
  from delete_tag_idempotent [OF h, of "''t9''" 3 4] h a show ?thesis
    by blast
qed

lemma run_full_default:
  "run default_config full_run_trace empty_world
     = sim_world Returned
         (clip_record\<lparr>status := ''processing'', updated_at := 2,
            transcript := Some SAMPLE_TRANSCRIPT, analysis := Some SAMPLE_ANALYSIS,
            status := ''completed'', updated_at := 4\<rparr>)"
  unfolding full_run_trace_def run_append
    run_scheduled [OF default_config_simps(1) default_config_simps(2)]
  by (simp only: run_Cons run_Nil
        step_sim_world [OF sim_step_present(1)] step_sim_world [OF sim_step_present(2)]
        step_sim_world [OF sim_step_present(3)]
        step_sim_world [OF sim_step_present(4) [OF default_config_simps(3)]]
        step_sim_world [OF sim_step_present(5) [OF default_config_simps(4)]]
        step_sim_world [OF sim_step_present(7)] step_sim_world [OF sim_step_present(8)])

lemma run_attach:
  "run default_config attach_trace empty_world
     = sim_world P_analysis
         (clip_record\<lparr>status := ''processing'', updated_at := 2,
            transcript := Some SAMPLE_TRANSCRIPT\<rparr>)"
  unfolding attach_trace_def run_append
    run_scheduled [OF default_config_simps(1) default_config_simps(2)]
  by (simp only: run_Cons run_Nil
        step_sim_world [OF sim_step_present(1)] step_sim_world [OF sim_step_present(2)]
        step_sim_world [OF sim_step_present(3)]
        step_sim_world [OF sim_step_present(4) [OF default_config_simps(3)]])

lemma sim_world_simps:
  "DB (sim_world p r) = [(''i1'', r)]" "tasks (sim_world p r) = [(''i1'', p)]"
  "db_get (DB (sim_world p r)) ''i1'' = Some r"
  "get_status ''i1'' (sim_world p r) = Inr (status r)"
  by (simp_all add: sim_world_def get_status_def db_get_def)

lemma transcribe_cases:
  assumes "db_get (DB w) k = Some r"
  shows "transcribe k w =
     (if status r = ''processing'' \<or> status r = ''completed''
      then (Inr (True, status r), w)
      else (Inr (True, ''processing''), w\<lparr>tasks := tasks w @ [(k, P_processing)]\<rparr>))"
proof -
  have "(status r \<in> set [''processing'', ''completed''])
          = (status r = ''processing'' \<or> status r = ''completed'')"
    by auto
  with assms show ?thesis
    unfolding transcribe_def by (simp del: set_simps)
qed

subsection \<open>Retriggering the transcription\<close>

lemma sim_step_finished: "finished p \<Longrightarrow> sim_step cfg now k p db = (p, db)"
  by (cases p) (simp_all add: finished_def)

lemma sim_step_other_key:
  "k' \<noteq> k \<Longrightarrow> db_get (snd (sim_step cfg now k' p db)) k = db_get db k"
  by (cases p)
     (simp_all add: try_stmt_def handler_stmt_def db_modify_def db_get_set
        split: option.split sum.split)

lemma step_keeps_status:
  assumes inv: "keeps_status s k w" and fresh: "k \<notin> set (upload_ids [e])"
    and guard: "s = ''processing'' \<or> s = ''completed'' \<or> e \<noteq> Transcribe k"
  shows "keeps_status s k (step cfg e w)"
proof (cases e)
  case (Upload env f)
  with fresh have "uuid4 env \<noteq> k" by simp
  with inv Upload show ?thesis
    using upload_effect [of cfg env f w]
    by (auto simp: keeps_status_def no_run_pending_def db_get_set)
next
  case (Transcribe k')
  show ?thesis
  proof (cases "db_get (DB w) k'")
    case None
    with inv Transcribe show ?thesis
      by (simp add: transcribe_def keeps_status_def no_run_pending_def)
  next
    case (Some r)
    show ?thesis
    proof (cases "k' = k")
      case True
      with inv Some have "status r = s" by (simp add: keeps_status_def)
      with guard Transcribe True have "status r = ''processing'' \<or> status r = ''completed''"
        by auto
      with inv Transcribe show ?thesis
        by (simp add: transcribe_cases [OF Some])
    next
      case False
      with inv Transcribe show ?thesis
        using transcribe_effect [of k' w]
        by (auto simp: keeps_status_def no_run_pending_def finished_def)
    qed
  qed
next
  case (SimStep i now)
  show ?thesis
  proof (cases "i < length (tasks w)")
    case False
    with inv SimStep show ?thesis by simp
  next
    case True
    obtain k' p where t: "tasks w ! i = (k', p)" by (cases "tasks w ! i")
    show ?thesis
    proof (cases "k' = k")
      case True
      from inv True t \<open>i < length (tasks w)\<close> have "finished p"
        by (auto simp: keeps_status_def no_run_pending_def list_all_length)
      then have "sim_step cfg now k p (DB w) = (p, DB w)" by (rule sim_step_finished)
      moreover have "(tasks w)[i := (k, p)] = tasks w"
        using t True by (metis list_update_id)
      ultimately show ?thesis
        using inv SimStep True t \<open>i < length (tasks w)\<close>
        by (simp add: Let_def keeps_status_def no_run_pending_def)
    next
      case False
      have db: "db_get (snd (sim_step cfg now k' p (DB w))) k = db_get (DB w) k"
        using False by (rule sim_step_other_key)
      have "list_all (\<lambda>t. fst t \<noteq> k \<or> finished (snd t))
              ((tasks w)[i := (k', fst (sim_step cfg now k' p (DB w)))])"
        using inv False
        by (auto simp: keeps_status_def no_run_pending_def list_all_iff
              dest!: set_update_subset_insert [THEN subsetD])
      with inv SimStep t \<open>i < length (tasks w)\<close> db show ?thesis
        by (simp add: Let_def keeps_status_def no_run_pending_def)
    qed
  qed
next
  case (AddTag k' tag now)
  with inv show ?thesis
    using add_tag_effect [of k' tag now w]
    by (auto simp: keeps_status_def no_run_pending_def db_get_set)
next
  case (DeleteTag k' tid now)
  with inv show ?thesis
    using delete_tag_effect [of k' tid now w]
    by (auto simp: keeps_status_def no_run_pending_def db_get_set)
next
  case (DeleteInterview d rm k')
  with inv show ?thesis
    using delete_interview_effect [of cfg d rm k' w]
    by (auto simp: keeps_status_def no_run_pending_def db_get_del)
qed

lemma upload_ids_append: "upload_ids (evs @ evs') = upload_ids evs @ upload_ids evs'"
  by (induction evs rule: upload_ids.induct) simp_all

lemma run_keeps_status:
  assumes "keeps_status s k w" "k \<notin> set (upload_ids evs)"
    and "s = ''processing'' \<or> s = ''completed'' \<or> Transcribe k \<notin> set evs"
  shows "keeps_status s k (run cfg evs w)"
  using assms
proof (induction evs arbitrary: w)
  case Nil
  then show ?case by (simp add: run_def)
next
  case (Cons e evs)
  from Cons.prems(2) have f: "k \<notin> set (upload_ids [e])" "k \<notin> set (upload_ids evs)"
    using upload_ids_append [of "[e]" evs] by auto
  from Cons.prems(3) have g: "s = ''processing'' \<or> s = ''completed'' \<or> e \<noteq> Transcribe k"
      "s = ''processing'' \<or> s = ''completed'' \<or> Transcribe k \<notin> set evs"
    by auto
  from Cons.IH [OF step_keeps_status [OF Cons.prems(1) f(1) g(1)] f(2) g(2)]
  show ?case by (simp add: run_def)
qed

text \<open>
  C1 (as amended). On a record whose status is \<^verbatim>\<open>completed\<close> (or \<^verbatim>\<open>processing\<close>),
  \<^verbatim>\<open>transcribe\<close> answers the current status and changes nothing: no run is scheduled.
  Once no run of the simulator is pending for a \<^verbatim>\<open>completed\<close> record, no sequence of
  later operations (handlers and statements of simulator runs alike) changes its status:
  the record stays \<^verbatim>\<open>completed\<close> until it is deleted. For a \<^verbatim>\<open>failed\<close> record the same
  holds of every sequence of operations without a request to transcribe it; such a
  request schedules a new run and answers \<^verbatim>\<open>processing\<close>.
\<close>

theorem completed_record_keeps_status:
  assumes "db_get (DB w) k = Some r"
  shows "(status r = ''processing'' \<or> status r = ''completed'' \<longrightarrow>
            transcribe k w = (Inr (True, status r), w))
       \<and> (no_run_pending k w \<and> k \<notin> set (upload_ids evs)
            \<and> (status r = ''processing'' \<or> status r = ''completed'' \<or> Transcribe k \<notin> set evs)
           \<longrightarrow> (case db_get (DB (run cfg evs w)) k of
                  None \<Rightarrow> True
                | Some r' \<Rightarrow> status r' = status r)
               \<and> no_run_pending k (run cfg evs w))
       \<and> (status r \<noteq> ''processing'' \<and> status r \<noteq> ''completed'' \<longrightarrow>
            transcribe k w
              = (Inr (True, ''processing''), w\<lparr>tasks := tasks w @ [(k, P_processing)]\<rparr>))"
proof (intro conjI impI)
  assume "status r = ''processing'' \<or> status r = ''completed''"
  then show "transcribe k w = (Inr (True, status r), w)"
    by (simp add: transcribe_cases [OF assms])
next
  assume a: "no_run_pending k w \<and> k \<notin> set (upload_ids evs)
     \<and> (status r = ''processing'' \<or> status r = ''completed'' \<or> Transcribe k \<notin> set evs)"
  with assms have "keeps_status (status r) k w" by (simp add: keeps_status_def)
  from run_keeps_status [OF this, of evs cfg] a
  have "keeps_status (status r) k (run cfg evs w)" by blast
  then show "(case db_get (DB (run cfg evs w)) k of
                  None \<Rightarrow> True
                | Some r' \<Rightarrow> status r' = status r)"
      and "no_run_pending k (run cfg evs w)"
    by (simp_all add: keeps_status_def)
next
  assume "status r \<noteq> ''processing'' \<and> status r \<noteq> ''completed''"
  then show "transcribe k w
      = (Inr (True, ''processing''), w\<lparr>tasks := tasks w @ [(k, P_processing)]\<rparr>)"
    by (simp add: transcribe_cases [OF assms])
qed

text \<open>
  The claim as stated fails on a \<^verbatim>\<open>failed\<close> record: with a sample analysis that does not
  validate, the run ends in \<^verbatim>\<open>failed\<close>, and \<^verbatim>\<open>transcribe\<close> then answers
  \<^verbatim>\<open>processing\<close> and schedules a second run.
\<close>

theorem transcribe_failed_counterexample:
  "get_status ''i1'' (run bad_analysis_config full_run_trace empty_world) = Inr ''failed''
   \<and> fst (transcribe ''i1'' (run bad_analysis_config full_run_trace empty_world))
       = Inr (True, ''processing'')
   \<and> tasks (snd (transcribe ''i1'' (run bad_analysis_config full_run_trace empty_world)))
       = [(''i1'', Returned), (''i1'', P_processing)]"
  unfolding run_full_bad transcribe_cases [OF sim_world_simps(3)]
  by (simp add: sim_world_simps)

theorem completed_record_keeps_status_witness:
  "transcribe ''i1'' (run default_config full_run_trace empty_world)
     = (Inr (True, ''completed''), run default_config full_run_trace empty_world)
   \<and> no_run_pending ''i1'' (run default_config full_run_trace empty_world)
   \<and> ''i1'' \<notin> set (upload_ids [Transcribe ''i1'', SimStep 0 5, AddTag ''i1'' tag1 6])
   \<and> (case db_get (DB (run default_config [Transcribe ''i1'', SimStep 0 5, AddTag ''i1'' tag1 6]
                          (run default_config full_run_trace empty_world))) ''i1'' of
         None \<Rightarrow> False
       | Some r' \<Rightarrow> status r' = ''completed'')
   \<and> transcribe ''i1'' uploaded_world
       = (Inr (True, ''processing''),
          uploaded_world\<lparr>tasks := tasks uploaded_world @ [(''i1'', P_processing)]\<rparr>)"
proof -
  let ?r = "clip_record\<lparr>status := ''processing'', updated_at := 2,
            transcript := Some SAMPLE_TRANSCRIPT, analysis := Some SAMPLE_ANALYSIS,
            status := ''completed'', updated_at := 4\<rparr>"
  let ?w = "run default_config full_run_trace empty_world"
  let ?evs = "[Transcribe ''i1'', SimStep 0 5, AddTag ''i1'' tag1 6]"
  have h: "db_get (DB ?w) ''i1'' = Some ?r"
    unfolding run_full_default by (rule sim_world_simps(3))
  have s: "status ?r = ''completed''" by simp
  have n: "no_run_pending ''i1'' ?w"
    unfolding run_full_default by (simp add: no_run_pending_def sim_world_simps finished_def)
  have f: "''i1'' \<notin> set (upload_ids ?evs)" by simp
  have h': "db_get (DB uploaded_world) ''i1'' = Some clip_record"
    by (simp add: uploaded_world_def db_get_def)
  have s': "status clip_record \<noteq> ''processing'' \<and> status clip_record \<noteq> ''completed''"
    by (simp add: clip_record_def)
  note a = completed_record_keeps_status [OF h, of ?evs default_config]
  note b = completed_record_keeps_status [OF h', of ?evs default_config]
  have a1: "transcribe ''i1'' ?w = (Inr (True, ''completed''), ?w)"
    using a s by simp
  have a2: "case db_get (DB (run default_config ?evs ?w)) ''i1'' of
         None \<Rightarrow> True | Some r' \<Rightarrow> status r' = ''completed''"
    using a s n f by (simp split: option.splits)
  have e1: "step default_config (Transcribe ''i1'') ?w = ?w"
    using a1 by simp
  have e2: "step default_config (SimStep 0 5) (sim_world Returned ?r) = sim_world Returned ?r"
    by (rule step_sim_world) simp
  have e3: "db_get (DB (step default_config (AddTag ''i1'' tag1 6) (sim_world Returned ?r))) ''i1''
      \<noteq> None"
    by (simp add: add_tag_def sim_world_simps(1) db_get_def db_set_def)
  have present: "db_get (DB (run default_config ?evs ?w)) ''i1'' \<noteq> None"
    unfolding run_Cons run_Nil e1 unfolding run_full_default e2 by (rule e3)
  from a2 present
  have a3: "case db_get (DB (run default_config ?evs ?w)) ''i1'' of
         None \<Rightarrow> False | Some r' \<Rightarrow> status r' = ''completed''"
    by (cases "db_get (DB (run default_config ?evs ?w)) ''i1''") simp_all
  have b1: "transcribe ''i1'' uploaded_world
       = (Inr (True, ''processing''),
          uploaded_world\<lparr>tasks := tasks uploaded_world @ [(''i1'', P_processing)]\<rparr>)"
    using b s' by simp
  show ?thesis
    by (rule conjI [OF a1 conjI [OF n conjI [OF f conjI [OF a3 b1]]]])
qed

lemma step_sim_world2:
  "sim_step cfg now ''i1'' p [(''i1'', r)] = (p', [(''i1'', r')]) \<Longrightarrow>
   step cfg (SimStep 0 now) (sim_world2 p q r) = sim_world2 p' q r'"
  "sim_step cfg now ''i1'' q [(''i1'', r)] = (q', [(''i1'', r')]) \<Longrightarrow>
   step cfg (SimStep 1 now) (sim_world2 p q r) = sim_world2 p q' r'"
  by (simp_all add: sim_world2_def Let_def)

lemma transcribe_twice:
  "step cfg (Transcribe ''i1'') (sim_world P_processing clip_record)
     = sim_world2 P_processing P_processing clip_record"
  by (simp add: transcribe_def sim_world_def sim_world2_def db_get_def clip_record_def)

lemma run_duplicate:
  "run default_config duplicate_trace empty_world
     = sim_world2 Returned P_processing
         (clip_record\<lparr>status := ''processing'', updated_at := 2,
            transcript := Some SAMPLE_TRANSCRIPT, analysis := Some SAMPLE_ANALYSIS,
            status := ''completed'', updated_at := 4\<rparr>)"
  unfolding duplicate_trace_def run_append
    run_scheduled [OF default_config_simps(1) default_config_simps(2)]
  by (simp only: run_Cons run_Nil transcribe_twice
        step_sim_world2(1) [OF sim_step_present(1)] step_sim_world2(1) [OF sim_step_present(2)]
        step_sim_world2(1) [OF sim_step_present(3)]
        step_sim_world2(1) [OF sim_step_present(4) [OF default_config_simps(3)]]
        step_sim_world2(1) [OF sim_step_present(5) [OF default_config_simps(4)]]
        step_sim_world2(1) [OF sim_step_present(7)] step_sim_world2(1) [OF sim_step_present(8)])

text \<open>
  What the amended statement leaves out. \<^verbatim>\<open>transcribe\<close> does not set the status itself:
  the status becomes \<^verbatim>\<open>processing\<close> only with the first statement of the scheduled run.
  Two requests that arrive before that statement both pass the guard and schedule two
  runs; when the first has completed the record, the first statement of the second sets
  the status of the completed record back to \<^verbatim>\<open>processing\<close>. This is a slip of the code
  against the purpose of its own guard, and the reason for the condition that no run
  is pending.
\<close>

lemma duplicate_run_reopens_completed:
  "get_status ''i1'' (run default_config duplicate_trace empty_world) = Inr ''completed''
   \<and> \<not> no_run_pending ''i1'' (run default_config duplicate_trace empty_world)
   \<and> get_status ''i1'' (run default_config (duplicate_trace @ [SimStep 1 5]) empty_world)
       = Inr ''processing''"
proof -
  have g: "get_status ''i1'' (sim_world2 p q r) = Inr (status r)" for p q r
    by (simp add: sim_world2_def get_status_def db_get_def)
  have n: "no_run_pending ''i1'' (sim_world2 p q r) = (finished p \<and> finished q)" for p q r
    by (simp add: sim_world2_def no_run_pending_def)
  show ?thesis
    unfolding run_append run_duplicate run_Cons run_Nil
      step_sim_world2(2) [OF sim_step_present(1)] g n
    by (simp add: finished_def)
qed

subsection \<open>Uploads whose file name has no extension\<close>












subsection \<open>A run of the simulator whose record is gone\<close>

lemma step_sim_single_task:
  assumes "tasks w = [(k, p)]" "sim_step cfg now k p (DB w) = (p', db')"
  shows "step cfg (SimStep 0 now) w = w\<lparr>DB := db', tasks := [(k, p')]\<rparr>"
  using assms by (simp add: Let_def)

lemma delete_during_sleep:
  "DB (snd (delete_interview cfg d rm ''i1'' (sim_world p r))) = []"
  "tasks (snd (delete_interview cfg d rm ''i1'' (sim_world p r))) = [(''i1'', p)]"
  by (auto simp add: delete_interview_def sim_world_simps(1,2) db_get_def Let_def db_del_def split: option.split)

lemma run_deleted:
  "DB (run default_config deleted_trace empty_world) = []"
  "tasks (run default_config deleted_trace empty_world) = [(''i1'', Raised (KeyError ''i1''))]"
proof -
  let ?r = "clip_record\<lparr>status := ''processing'', updated_at := 2\<rparr>"
  let ?w = "snd (delete_interview default_config True True ''i1'' (sim_world P_transcript ?r))"
  have a: "run default_config deleted_trace empty_world
      = run default_config [SimStep 0 4, SimStep 0 4] ?w"
    unfolding deleted_trace_def run_append
      run_scheduled [OF default_config_simps(1) default_config_simps(2)]
    by (simp only: run_Cons run_Nil step.simps(6)
          step_sim_world [OF sim_step_present(1)] step_sim_world [OF sim_step_present(2)]
          step_sim_world [OF sim_step_present(3)])
  have b: "step default_config (SimStep 0 4) ?w = ?w\<lparr>DB := [], tasks := [(''i1'', H_failed)]\<rparr>"
    by (rule step_sim_single_task [OF delete_during_sleep(2)])
       (simp only: delete_during_sleep(1) sim_step_absent)
  have c: "step default_config (SimStep 0 4) (?w\<lparr>DB := [], tasks := [(''i1'', H_failed)]\<rparr>)
      = ?w\<lparr>DB := [], tasks := [(''i1'', Raised (KeyError ''i1''))]\<rparr>"
    by (simp add: Let_def handler_stmt_def db_modify_def db_get_def)
  show "DB (run default_config deleted_trace empty_world) = []"
    unfolding a by (simp only: run_Cons run_Nil b c) simp
  show "tasks (run default_config deleted_trace empty_world) = [(''i1'', Raised (KeyError ''i1''))]"
    unfolding a by (simp only: run_Cons run_Nil b c) simp
qed

text \<open>
  C4. The claim does not hold of the code: when the record of the interview is no longer in
  the store (it was deleted after the run was scheduled, here while the run sleeps), the
  statement that fails raises \<^verbatim>\<open>KeyError\<close>, the handler's own first statement
  \<^verbatim>\<open>DB[interview_id].status = "failed"\<close> raises \<^verbatim>\<open>KeyError\<close> again, and this
  exception leaves the simulator. The same happens when the whole function runs on a
  store that lacks the key.
\<close>

theorem simulator_propagates_when_record_deleted:
  "tasks (run default_config deleted_trace empty_world) = [(''i1'', Raised (KeyError ''i1''))]
   \<and> DB (run default_config deleted_trace empty_world) = []
   \<and> simulate_transcription default_config clock ''i1'' [] = (Raised (KeyError ''i1''), [])"
  by (simp add: run_deleted simulate_transcription_def eval_nat_numeral try_stmt_def
        handler_stmt_def db_modify_def db_get_def)

subsection \<open>Searching a transcript\<close>

lemma search_transcript_nonempty:
  assumes "query \<noteq> []" "db_get (DB w) k = Some r" "transcript r = Some ts" "ts \<noteq> []"
  shows "search_transcript lib k query case_sensitive w =
     (case search_loop lib query (\<not> case_sensitive) 0 ts of
        Inl e \<Rightarrow> Inl e
      | Inr results \<Rightarrow> Inr (results, length results))"
  using assms by (cases ts) (simp_all add: search_transcript_def)

lemma search_transcript_no_transcript:
  assumes "query \<noteq> []" "db_get (DB w) k = Some r" "transcript r = None \<or> transcript r = Some []"
  shows "search_transcript lib k query case_sensitive w
           = Inl (HTTPException 404 ''Transcript not available'')"
  using assms by (auto simp add: search_transcript_def)

lemma sample_transcript_nonempty: "SAMPLE_TRANSCRIPT \<noteq> []"
  by (simp add: SAMPLE_TRANSCRIPT_def)

lemma completed_record:
  "db_get (DB (run default_config full_run_trace empty_world)) ''i1''
     = Some (clip_record\<lparr>status := ''processing'', updated_at := 2,
            transcript := Some SAMPLE_TRANSCRIPT, analysis := Some SAMPLE_ANALYSIS,
            status := ''completed'', updated_at := 4\<rparr>)"
  unfolding run_full_default by (rule sim_world_simps(3))

lemma search_dot_sample:
  "case search_loop lib ''.'' True 0 SAMPLE_TRANSCRIPT of
     Inl e \<Rightarrow> False
   | Inr results \<Rightarrow> length results = 5 \<and> map line_number results = [0, 1, 2, 3, 4]
       \<and> map sr_text results = map item_text SAMPLE_TRANSCRIPT"
  by code_simp

lemma search_paren_sample:
  "search_loop lib ''('' True 0 SAMPLE_TRANSCRIPT = Inl (ReError ''('')"
  by code_simp

lemma second_segment_has_no_dot:
  "\<not> py_in ''.'' (item_text (SAMPLE_TRANSCRIPT ! 1))"
  by code_simp

text \<open>
  C10. The query is a regular expression. On the completed record with the sample
  transcript, the query \<^verbatim>\<open>.\<close> returns all five segments, the second of which has no
  dot in its text; and the query \<^verbatim>\<open>(\<close> makes the operation raise \<^verbatim>\<open>re.error\<close>, which is
  neither the 404 nor the 400 answer. Both hold whatever the rest of the library does.
\<close>

theorem search_query_is_a_regular_expression:
  "(\<exists>results. search_transcript lib ''i1'' ''.'' False (run default_config full_run_trace empty_world)
                  = Inr (results, 5)
        \<and> map line_number results = [0, 1, 2, 3, 4]
        \<and> map sr_text results = map item_text SAMPLE_TRANSCRIPT)
   \<and> \<not> py_in ''.'' (item_text (SAMPLE_TRANSCRIPT ! 1))
   \<and> search_transcript lib ''i1'' ''('' False (run default_config full_run_trace empty_world)
       = Inl (ReError ''('')"
proof -
  have q: "''.'' \<noteq> []" "''('' \<noteq> []" by simp_all
  have t: "transcript (clip_record\<lparr>status := ''processing'', updated_at := 2,
            transcript := Some SAMPLE_TRANSCRIPT, analysis := Some SAMPLE_ANALYSIS,
            status := ''completed'', updated_at := 4\<rparr>) = Some SAMPLE_TRANSCRIPT"
    by simp
  note dot = search_transcript_nonempty [OF q(1) completed_record t sample_transcript_nonempty,
      of lib False]
  note paren = search_transcript_nonempty [OF q(2) completed_record t sample_transcript_nonempty,
      of lib False]
  show ?thesis
  proof (cases "search_loop lib ''.'' True 0 SAMPLE_TRANSCRIPT")
    case (Inl e)
    with search_dot_sample [of lib] show ?thesis by (simp only: sum.case)
  next
    case (Inr results)
    with search_dot_sample [of lib]
    have r: "length results = 5 \<and> map line_number results = [0, 1, 2, 3, 4]
       \<and> map sr_text results = map item_text SAMPLE_TRANSCRIPT"
      by (simp only: sum.case)
    have d: "search_transcript lib ''i1'' ''.'' False (run default_config full_run_trace empty_world)
                  = Inr (results, 5)"
      unfolding dot by (simp only: Inr sum.case r simp_thms)
    have p: "search_transcript lib ''i1'' ''('' False (run default_config full_run_trace empty_world)
                  = Inl (ReError ''('')"
      unfolding paren by (simp only: search_paren_sample sum.case simp_thms)
    note r1 = r [THEN conjunct2, THEN conjunct1] and r2 = r [THEN conjunct2, THEN conjunct2]
    have "\<exists>results. search_transcript lib ''i1'' ''.'' False
                (run default_config full_run_trace empty_world) = Inr (results, 5)
        \<and> map line_number results = [0, 1, 2, 3, 4]
        \<and> map sr_text results = map item_text SAMPLE_TRANSCRIPT"
      by (rule exI [of _ results]) (rule conjI [OF d conjI [OF r1 r2]])
    then show ?thesis
      by (rule conjI [OF _ conjI [OF second_segment_has_no_dot p]])
  qed
qed

lemma plain_is_no_dot: "re_plain p \<Longrightarrow> p \<noteq> CHR ''.''"
  by (auto simp: re_plain_def re_special_def)

lemma match_here_plain:
  "\<forall>c \<in> set q. re_plain c \<Longrightarrow> match_here True q t = prefix (lower q) (lower t)"
proof (induction q arbitrary: t)
  case Nil
  then show ?case by (simp add: lower_def)
next
  case (Cons p ps)
  then have p: "p \<noteq> CHR ''.''" by (simp add: plain_is_no_dot)
  show ?case
  proof (cases t)
    case Nil
    then show ?thesis by (simp add: lower_def)
  next
    case (Cons c cs)
    with Cons.IH [of cs] Cons.prems p show ?thesis
      by (simp add: lower_def char_matches_def)
  qed
qed

lemma match_anywhere_plain:
  "\<forall>c \<in> set q. re_plain c \<Longrightarrow> match_anywhere True q t = py_in (lower q) (lower t)"
proof (induction t)
  case Nil
  then show ?case using match_here_plain [of q "[]"] by (simp add: lower_def)
next
  case (Cons c cs)
  then show ?case using match_here_plain [of q "c # cs"] by (simp add: lower_def)
qed

lemma re_search_plain:
  "\<forall>c \<in> set q. re_plain c \<Longrightarrow> re_search lib q t True = Inr (py_in (lower q) (lower t))"
  by (simp add: re_search_def match_anywhere_plain)

lemma search_loop_plain:
  assumes "\<forall>c \<in> set q. re_plain c"
  shows "search_loop lib q True i ts =
     Inr (map (\<lambda>(i, item). \<lparr>sr_text = item_text item, sr_start_time = item_start item,
                        sr_end_time = item_end item, line_number = i\<rparr>)
       (filter (\<lambda>(i, item). py_in (lower q) (lower (item_text item))) (enumerate i ts)))"
  by (induction ts arbitrary: i) (simp_all add: re_search_plain [OF assms])

text \<open>
  C5 (as amended). For a query made of plain ASCII characters only (none of the
  metacharacters of a regular expression), the search with \<^verbatim>\<open>case_sensitive=false\<close> over
  a non-empty transcript returns exactly the segments whose text contains the query when
  case is ignored, in segment order, each with its zero-based index, its times and its
  text, together with their number; when the transcript is null (or empty) the search
  fails with the code 404.
\<close>

theorem search_plain_query:
  assumes "query \<noteq> []" "\<forall>c \<in> set query. re_plain c" "db_get (DB w) k = Some r"
  shows "(transcript r = Some ts \<and> ts \<noteq> [] \<longrightarrow>
            search_transcript lib k query False w
              = Inr (segments_containing query ts, length (segments_containing query ts)))
       \<and> (transcript r = None \<or> transcript r = Some [] \<longrightarrow>
            search_transcript lib k query False w
              = Inl (HTTPException 404 ''Transcript not available''))"
proof (intro conjI impI)
  assume "transcript r = Some ts \<and> ts \<noteq> []"
  then show "search_transcript lib k query False w
              = Inr (segments_containing query ts, length (segments_containing query ts))"
    using search_transcript_nonempty [OF assms(1,3), of ts lib False]
    by (simp add: search_loop_plain [OF assms(2)] segments_containing_def)
next
  assume "transcript r = None \<or> transcript r = Some []"
  then show "search_transcript lib k query False w
              = Inl (HTTPException 404 ''Transcript not available'')"
    by (rule search_transcript_no_transcript [OF assms(1,3)])
qed

lemma react_is_plain: "\<forall>c \<in> set ''react''. re_plain c"
  by code_simp

lemma react_segments:
  "map line_number (segments_containing ''react'' SAMPLE_TRANSCRIPT) = [2, 4]"
  by code_simp

lemma dot_segments:
  "map line_number (segments_containing ''.'' SAMPLE_TRANSCRIPT) = [0, 2, 4]"
  by code_simp

lemma search_dot_completed:
  "\<exists>results. search_transcript lib ''i1'' ''.'' False
                (run default_config full_run_trace empty_world) = Inr (results, 5)
        \<and> map line_number results = [0, 1, 2, 3, 4]"
proof (cases "search_loop lib ''.'' True 0 SAMPLE_TRANSCRIPT")
  case (Inl e)
  with search_dot_sample [of lib] show ?thesis by (simp only: sum.case)
next
  case (Inr results)
  with search_dot_sample [of lib]
  have r: "length results = 5 \<and> map line_number results = [0, 1, 2, 3, 4]
       \<and> map sr_text results = map item_text SAMPLE_TRANSCRIPT"
    by (simp only: sum.case)
  have q: "''.'' \<noteq> []" by simp
  have t: "transcript (clip_record\<lparr>status := ''processing'', updated_at := 2,
            transcript := Some SAMPLE_TRANSCRIPT, analysis := Some SAMPLE_ANALYSIS,
            status := ''completed'', updated_at := 4\<rparr>) = Some SAMPLE_TRANSCRIPT"
    by simp
  have d: "search_transcript lib ''i1'' ''.'' False (run default_config full_run_trace empty_world)
                = Inr (results, 5)"
    unfolding search_transcript_nonempty [OF q completed_record t sample_transcript_nonempty,
      of lib False]
    by (simp only: Inr sum.case r simp_thms)
  show ?thesis
    by (rule exI [of _ results]) (rule conjI [OF d r [THEN conjunct2, THEN conjunct1]])
qed

text \<open>
  The claim as stated fails for a query with a metacharacter: on the completed record with
  the sample transcript, the query \<^verbatim>\<open>.\<close> returns all five segments, while only the
  segments 0, 2 and 4 contain a dot.
\<close>

theorem search_dot_counterexample:
  "(\<exists>results. search_transcript no_lib ''i1'' ''.'' False
                (run default_config full_run_trace empty_world) = Inr (results, 5)
        \<and> map line_number results = [0, 1, 2, 3, 4])
   \<and> map line_number (segments_containing ''.'' SAMPLE_TRANSCRIPT) = [0, 2, 4]"
  by (rule conjI [OF search_dot_completed dot_segments])

theorem search_plain_query_witness:
  "''react'' \<noteq> [] \<and> list_all re_plain ''react''
   \<and> search_transcript no_lib ''i1'' ''react'' False (run default_config full_run_trace empty_world)
       = Inr (segments_containing ''react'' SAMPLE_TRANSCRIPT,
              length (segments_containing ''react'' SAMPLE_TRANSCRIPT))
   \<and> map line_number (segments_containing ''react'' SAMPLE_TRANSCRIPT) = [2, 4]
   \<and> search_transcript no_lib ''i1'' ''react'' False uploaded_world
       = Inl (HTTPException 404 ''Transcript not available'')"
proof -
  let ?r = "clip_record\<lparr>status := ''processing'', updated_at := 2,
            transcript := Some SAMPLE_TRANSCRIPT, analysis := Some SAMPLE_ANALYSIS,
            status := ''completed'', updated_at := 4\<rparr>"
  have q: "''react'' \<noteq> []" by simp
  have t: "transcript ?r = Some SAMPLE_TRANSCRIPT \<and> SAMPLE_TRANSCRIPT \<noteq> []"
    by (simp add: sample_transcript_nonempty)
  have h': "db_get (DB uploaded_world) ''i1'' = Some clip_record"
    by (simp add: uploaded_world_def db_get_def)
  have t': "transcript clip_record = None \<or> transcript clip_record = Some []"
    by (simp add: clip_record_def)
  note a = search_plain_query [OF q react_is_plain completed_record, of SAMPLE_TRANSCRIPT no_lib,
      THEN conjunct1, THEN mp, OF t]
  note b = search_plain_query [OF q react_is_plain h', of SAMPLE_TRANSCRIPT no_lib,
      THEN conjunct2, THEN mp, OF t']
  have p: "list_all re_plain ''react''"
    using react_is_plain by (simp only: list_all_iff)
  show ?thesis
    by (rule conjI [OF q conjI [OF p conjI [OF a conjI [OF react_segments b]]]])
qed

subsection \<open>Export\<close>

lemma split_lines_nonempty: "split_lines s \<noteq> []"
  by (induction s) (auto split: list.splits)

lemma split_lines_append: "split_lines (a @ newline # b) = split_lines a @ split_lines b"
proof (induction a)
  case Nil
  show ?case by simp
next
  case (Cons c cs)
  obtain l ls where l: "split_lines cs = l # ls"
    using split_lines_nonempty [of cs] by (cases "split_lines cs") auto
  with Cons show ?case by simp
qed

lemma split_lines_single: "newline \<notin> set l \<Longrightarrow> split_lines l = [l]"
  by (induction l) auto

lemma line_in_split_lines:
  assumes "newline \<notin> set l"
  shows "l \<in> set (split_lines (pre @ newline # l @ newline # post))"
proof -
  have "split_lines (pre @ newline # l @ newline # post)
      = split_lines pre @ split_lines l @ split_lines post"
    using split_lines_append [of pre "l @ newline # post"] split_lines_append [of l post]
    by simp
  with assms show ?thesis by (simp add: split_lines_single)
qed

lemma digit_char_not_newline: "d < 10 \<Longrightarrow> digit_char d \<noteq> newline"
proof
  assume d: "d < 10" and "digit_char d = newline"
  then have "(of_char (digit_char d) :: nat) = of_char newline" by simp
  with d show False by (simp add: digit_char_def newline_def)
qed

lemma str_nat_no_newline: "newline \<notin> set (str_nat n)"
proof (induction n rule: str_nat.induct)
  case (1 n)
  show ?case
  proof (cases "n < 10")
    case True
    then show ?thesis
      by (subst str_nat.simps) (simp add: digit_char_not_newline [THEN not_sym])
  next
    case False
    with 1 show ?thesis
      by (subst str_nat.simps) (simp add: digit_char_not_newline [THEN not_sym])
  qed
qed

lemma format_1f_no_newline: "newline \<notin> set (format_1f x)"
  by (simp add: format_1f_def Let_def str_nat_no_newline [unfolded newline_def] newline_def)

lemma transcript_line_text: "transcript_line item = line_text item @ [newline]"
  by (simp add: transcript_line_def line_text_def)

lemma line_text_no_newline:
  "newline \<notin> set (item_text item) \<Longrightarrow> newline \<notin> set (line_text item)"
  by (simp add: line_text_def format_1f_no_newline [unfolded newline_def] newline_def)

lemma lines_end_with_newline:
  "concat (map transcript_line xs) = [] \<or> last (concat (map transcript_line xs)) = newline"
  by (induction xs rule: rev_induct) (simp_all add: transcript_line_text)

lemma segment_line_in_lines:
  assumes "item \<in> set ts" "newline \<notin> set (item_text item)"
  shows "line_text item \<in> set (split_lines (pre @ newline # concat (map transcript_line ts) @ post))"
proof -
  obtain xs ys where ts: "ts = xs @ item # ys"
    using assms(1) by (auto simp: in_set_conv_decomp)
  let ?a = "pre @ newline # concat (map transcript_line xs)"
  have "?a \<noteq> [] \<and> last ?a = newline"
    using lines_end_with_newline [of xs] by auto
  then obtain p where p: "?a = p @ [newline]"
    by (metis append_butlast_last_id)
  have "pre @ newline # concat (map transcript_line ts) @ post
      = ?a @ line_text item @ newline # (concat (map transcript_line ys) @ post)"
    by (simp add: ts transcript_line_text)
  also have "\<dots> = p @ newline # line_text item @ newline # (concat (map transcript_line ys) @ post)"
    by (simp only: p) simp
  finally have eq: "pre @ newline # concat (map transcript_line ts) @ post
      = p @ newline # line_text item @ newline # (concat (map transcript_line ys) @ post)" .
  show ?thesis
    unfolding eq by (rule line_in_split_lines [OF line_text_no_newline [OF assms(2)]])
qed

lemma export_txt_shape:
  assumes "transcript r = Some ts" "ts \<noteq> []"
  shows "\<exists>pre post. export_txt sd r = pre @ newline # concat (map transcript_line ts) @ post"
proof -
  let ?pre = "''Interview: '' @ original_name r @ [newline]
     @ ''Upload Date: '' @ sd (upload_date r) @ [newline]
     @ ''Status: '' @ status r @ [newline, newline]
     @ (case analysis r of
          None \<Rightarrow> []
        | Some a \<Rightarrow>
            (case summary a of
               None \<Rightarrow> []
             | Some s \<Rightarrow> if s = [] then [] else ''SUMMARY:'' @ [newline] @ s @ [newline, newline]))
     @ ''TRANSCRIPT:''"
  let ?post = "(if tags r = [] then []
        else [newline] @ ''TAGS:'' @ [newline] @ concat (map tag_line (tags r)))"
  have "export_txt sd r = ?pre @ newline # concat (map transcript_line ts) @ ?post"
    using assms by (simp add: export_txt_def)
  then show ?thesis by blast
qed

lemma export_cases:
  assumes "db_get (DB w) k = Some r"
  shows "export_interview sd now k format w =
     (if lower format = ''json'' then Inr (ExportJson r now)
      else if lower format = ''txt'' then Inr (ExportTxt (export_txt sd r) (k @ ''_export.txt''))
      else Inl (HTTPException 400 ''Unsupported format''))"
  using assms by (simp add: export_interview_def)

lemma lower_formats:
  "lower ''txt'' = ''txt''" "lower ''TXT'' = ''txt''" "lower ''xml'' = ''xml''"
  by code_simp+

lemma yes_line: "line_text yes_item = ''[10.0s - 12.0s] Yes.''"
  by code_simp

lemma yes_item_no_newline: "newline \<notin> set (item_text yes_item)"
  by (simp add: yes_item_def newline_def)

text \<open>
  C7 (as amended). The format is compared without regard to case. With the format
  \<^verbatim>\<open>txt\<close> the export of an existing record is its text layout, in which the lines of the
  transcript segments follow each other in order, each of the form
  \<^verbatim>\<open>[<start>s - <end>s] <text>\<close> with the times to one decimal; every segment whose text
  has no line break is one of the lines of the export. A format whose lower-case form is
  neither \<^verbatim>\<open>json\<close> nor \<^verbatim>\<open>txt\<close> fails with the code 400.
\<close>

theorem export_txt_renders_segments:
  assumes "db_get (DB w) k = Some r"
  shows "(lower format = ''txt'' \<longrightarrow>
            export_interview sd now k format w
              = Inr (ExportTxt (export_txt sd r) (k @ ''_export.txt'')))
       \<and> (\<forall>ts. transcript r = Some ts \<and> ts \<noteq> [] \<longrightarrow>
             (\<exists>pre post. export_txt sd r = pre @ newline # concat (map transcript_line ts) @ post)
             \<and> (\<forall>item \<in> set ts. transcript_line item = line_text item @ [newline]
                   \<and> (newline \<notin> set (item_text item) \<longrightarrow>
                        line_text item \<in> set (split_lines (export_txt sd r)))))
       \<and> (lower format \<noteq> ''json'' \<and> lower format \<noteq> ''txt'' \<longrightarrow>
            export_interview sd now k format w = Inl (HTTPException 400 ''Unsupported format''))"
proof (intro conjI impI allI ballI)
  assume "lower format = ''txt''"
  then show "export_interview sd now k format w
      = Inr (ExportTxt (export_txt sd r) (k @ ''_export.txt''))"
    by (simp add: export_cases [OF assms])
next
  fix ts assume "transcript r = Some ts \<and> ts \<noteq> []"
  then show "\<exists>pre post. export_txt sd r = pre @ newline # concat (map transcript_line ts) @ post"
    using export_txt_shape by blast
next
  fix ts item assume "transcript r = Some ts \<and> ts \<noteq> []" "item \<in> set ts"
  show "transcript_line item = line_text item @ [newline]"
    by (rule transcript_line_text)
next
  fix ts item
  assume ts: "transcript r = Some ts \<and> ts \<noteq> []" and item: "item \<in> set ts"
    and nl: "newline \<notin> set (item_text item)"
  from ts obtain pre post
    where "export_txt sd r = pre @ newline # concat (map transcript_line ts) @ post"
    using export_txt_shape by blast
  then show "line_text item \<in> set (split_lines (export_txt sd r))"
    using segment_line_in_lines [OF item nl] by simp
next
  assume "lower format \<noteq> ''json'' \<and> lower format \<noteq> ''txt''"
  then show "export_interview sd now k format w = Inl (HTTPException 400 ''Unsupported format'')"
    by (simp add: export_cases [OF assms])
qed

text \<open>
  The claim as stated fails for a format that differs from \<^verbatim>\<open>txt\<close> only in case:
  \<^verbatim>\<open>TXT\<close> is neither the string \<^verbatim>\<open>json\<close> nor the string \<^verbatim>\<open>txt\<close>, and the export succeeds.
\<close>

theorem export_upper_case_format_counterexample:
  "''TXT'' \<noteq> ''json'' \<and> ''TXT'' \<noteq> ''txt''
   \<and> export_interview str_nat 9 ''i1'' ''TXT'' yes_world
       = Inr (ExportTxt (export_txt str_nat (clip_record\<lparr>status := ''completed'',
                transcript := Some [yes_item], analysis := Some SAMPLE_ANALYSIS\<rparr>))
              ''i1_export.txt'')"
proof -
  have h: "db_get (DB yes_world) ''i1'' = Some (clip_record\<lparr>status := ''completed'',
        transcript := Some [yes_item], analysis := Some SAMPLE_ANALYSIS\<rparr>)"
    by (simp add: yes_world_def db_get_def)
  show ?thesis
    by (simp add: export_cases [OF h] lower_formats)
qed

theorem export_txt_renders_segments_witness:
  "db_get (DB yes_world) ''i1'' = Some (clip_record\<lparr>status := ''completed'',
        transcript := Some [yes_item], analysis := Some SAMPLE_ANALYSIS\<rparr>)
   \<and> lower ''txt'' = ''txt''
   \<and> export_interview str_nat 9 ''i1'' ''txt'' yes_world
       = Inr (ExportTxt (export_txt str_nat (clip_record\<lparr>status := ''completed'',
                transcript := Some [yes_item], analysis := Some SAMPLE_ANALYSIS\<rparr>))
              (''i1'' @ ''_export.txt''))
   \<and> ''[10.0s - 12.0s] Yes.'' \<in> set (split_lines (export_txt str_nat (clip_record\<lparr>status := ''completed'',
                transcript := Some [yes_item], analysis := Some SAMPLE_ANALYSIS\<rparr>)))
   \<and> lower ''xml'' \<noteq> ''json'' \<and> lower ''xml'' \<noteq> ''txt''
   \<and> export_interview str_nat 9 ''i1'' ''xml'' yes_world
       = Inl (HTTPException 400 ''Unsupported format'')"
proof -
  let ?r = "clip_record\<lparr>status := ''completed'',
        transcript := Some [yes_item], analysis := Some SAMPLE_ANALYSIS\<rparr>"
  have h: "db_get (DB yes_world) ''i1'' = Some ?r"
    by (simp add: yes_world_def db_get_def)
  have t: "transcript ?r = Some [yes_item] \<and> [yes_item] \<noteq> []" by simp
  have x: "lower ''xml'' \<noteq> ''json'' \<and> lower ''xml'' \<noteq> ''txt''"
    by (simp add: lower_formats)
  note a = export_txt_renders_segments [OF h, of "''txt''" str_nat 9]
  note b = export_txt_renders_segments [OF h, of "''xml''" str_nat 9]
  have a1: "export_interview str_nat 9 ''i1'' ''txt'' yes_world
       = Inr (ExportTxt (export_txt str_nat ?r) (''i1'' @ ''_export.txt''))"
    using a lower_formats(1) by blast
  have a2: "line_text yes_item \<in> set (split_lines (export_txt str_nat ?r))"
    using a t yes_item_no_newline by (meson list.set_intros(1))
  have b1: "export_interview str_nat 9 ''i1'' ''xml'' yes_world
       = Inl (HTTPException 400 ''Unsupported format'')"
    using b x by blast
  show ?thesis
    using h lower_formats(1) a1 a2 [unfolded yes_line] x b1 by (intro conjI) simp_all
qed

subsection \<open>Statistics\<close>

lemma total_duration_status:
  "total_duration ops (map (\<lambda>(k, r). (k, r\<lparr>status := f k r\<rparr>)) db) = total_duration ops db"
proof -
  have "map last_end (filter has_transcript (map snd (map (\<lambda>(k, r). (k, r\<lparr>status := f k r\<rparr>)) db)))
      = map last_end (filter has_transcript (map snd db))"
    by (induction db) (auto simp: last_end_def has_transcript_def)
  then show ?thesis by (simp add: total_duration_def)
qed

lemma total_duration_without_transcript:
  "total_duration ops (filter (\<lambda>(k, r). has_transcript r) db) = total_duration ops db"
proof -
  have "filter has_transcript (map snd (filter (\<lambda>(k, r). has_transcript r) db))
      = filter has_transcript (map snd db)"
    by (induction db) auto
  then show ?thesis by (simp add: total_duration_def)
qed

lemma total_duration_completed:
  assumes "list_all (\<lambda>r. has_transcript r \<longrightarrow> status r = ''completed'') (map snd db)"
  shows "total_duration ops db
     = foldl (fl_add ops) 0
         (map last_end (filter (\<lambda>r. status r = ''completed'' \<and> has_transcript r) (map snd db)))"
proof -
  have "filter has_transcript (map snd db)
      = filter (\<lambda>r. status r = ''completed'' \<and> has_transcript r) (map snd db)"
    using assms by (induction db) auto
  then show ?thesis by (simp add: total_duration_def)
qed

text \<open>
  C8 (as amended). The statistics count the records per status. The total duration is the
  sum, over every record whose transcript is non-empty, of the end time of its last
  segment: the status of a record plays no part in it (changing the statuses leaves the
  total as it is, and so does removing the records without transcript). Where only
  completed records carry a transcript, this is the sum over the completed interviews.
  The total in minutes is that sum divided by 60 and rounded to two decimals; the average
  divides it further by the number of completed interviews, and is 0 when there is none.
\<close>

theorem stats_durations_from_transcripts:
  "total_interviews (get_stats ops w) = length (DB w)
   \<and> completed_interviews (get_stats ops w) = count_status ''completed'' (DB w)
   \<and> processing_interviews (get_stats ops w) = count_status ''processing'' (DB w)
   \<and> failed_interviews (get_stats ops w) = count_status ''failed'' (DB w)
   \<and> total_duration_minutes (get_stats ops w)
       = fl_round2 ops (fl_div ops (total_duration ops (DB w)) 60)
   \<and> average_duration_minutes (get_stats ops w)
       = (if count_status ''completed'' (DB w) > 0
          then fl_round2 ops (fl_div ops (fl_div ops (total_duration ops (DB w)) 60)
                                (of_nat (count_status ''completed'' (DB w))))
          else 0)
   \<and> total_duration ops (map (\<lambda>(k, r). (k, r\<lparr>status := f k r\<rparr>)) (DB w))
       = total_duration ops (DB w)
   \<and> total_duration ops (filter (\<lambda>(k, r). has_transcript r) (DB w)) = total_duration ops (DB w)
   \<and> (list_all (\<lambda>r. has_transcript r \<longrightarrow> status r = ''completed'') (map snd (DB w)) \<longrightarrow>
        total_duration ops (DB w)
          = foldl (fl_add ops) 0
              (map last_end (filter (\<lambda>r. status r = ''completed'' \<and> has_transcript r)
                 (map snd (DB w)))))"
  using total_duration_status [of ops f "DB w"] total_duration_without_transcript [of ops "DB w"]
    total_duration_completed [of "DB w" ops]
  by (simp add: get_stats_def Let_def)

lemma last_sample_end: "item_end (last SAMPLE_TRANSCRIPT) = 18"
  by (simp add: SAMPLE_TRANSCRIPT_def)

lemma round2_sample: "round2 (3 / 10) = 3 / 10"
  by code_simp

lemma exact_arithmetic_simps:
  "fl_add exact_arithmetic = (+)" "fl_div exact_arithmetic = (/)"
  "fl_round2 exact_arithmetic = round2"
  by (simp_all add: exact_arithmetic_def)

lemma total_duration_sample:
  "transcript r = Some SAMPLE_TRANSCRIPT \<Longrightarrow> total_duration exact_arithmetic [(k, r)] = 18"
  by (simp add: total_duration_def has_transcript_def last_end_def sample_transcript_nonempty
        last_sample_end exact_arithmetic_simps)

text \<open>
  The claim as stated fails in the state in which the simulator has attached the transcript
  and not yet set the status \<^verbatim>\<open>completed\<close>: no interview is completed, and the total
  duration is 0.3 minutes (18 seconds), taken from the record in \<^verbatim>\<open>processing\<close>. It
  fails as well in the state that a run leaves when building the analysis raises: the
  record is \<^verbatim>\<open>failed\<close>, keeps its transcript, and adds the same 0.3 minutes.
\<close>

theorem stats_processing_counterexample:
  "completed_interviews (get_stats exact_arithmetic (run default_config attach_trace empty_world)) = 0
   \<and> processing_interviews (get_stats exact_arithmetic (run default_config attach_trace empty_world)) = 1
   \<and> total_duration exact_arithmetic (DB (run default_config attach_trace empty_world)) = 18
   \<and> total_duration_minutes (get_stats exact_arithmetic (run default_config attach_trace empty_world))
       = 3 / 10
   \<and> average_duration_minutes (get_stats exact_arithmetic (run default_config attach_trace empty_world))
       = 0
   \<and> completed_interviews
         (get_stats exact_arithmetic (run bad_analysis_config full_run_trace empty_world)) = 0
   \<and> failed_interviews
         (get_stats exact_arithmetic (run bad_analysis_config full_run_trace empty_world)) = 1
   \<and> total_duration_minutes
         (get_stats exact_arithmetic (run bad_analysis_config full_run_trace empty_world)) = 3 / 10"
proof -
  let ?r = "clip_record\<lparr>status := ''processing'', updated_at := 2,
            transcript := Some SAMPLE_TRANSCRIPT\<rparr>"
  let ?f = "clip_record\<lparr>status := ''processing'', updated_at := 2,
            transcript := Some SAMPLE_TRANSCRIPT, status := ''failed'', updated_at := 4\<rparr>"
  have c: "count_status ''completed'' [(''i1'', ?r)] = 0"
      "count_status ''processing'' [(''i1'', ?r)] = 1"
      "count_status ''completed'' [(''i1'', ?f)] = 0"
      "count_status ''failed'' [(''i1'', ?f)] = 1"
    by (simp_all add: count_status_def)
  have t: "total_duration exact_arithmetic [(''i1'', ?r)] = 18"
      "total_duration exact_arithmetic [(''i1'', ?f)] = 18"
    by (rule total_duration_sample, simp)+
  show ?thesis
    unfolding run_attach run_full_bad get_stats_def Let_def sim_world_simps c t
    by (simp add: exact_arithmetic_simps round2_sample)
qed

theorem stats_durations_from_transcripts_witness:
  "list_all (\<lambda>r. \<not> has_transcript r \<or> status r = ''completed'')
      (map snd (DB (run default_config full_run_trace empty_world)))
   \<and> completed_interviews (get_stats exact_arithmetic (run default_config full_run_trace empty_world)) = 1
   \<and> total_duration_minutes (get_stats exact_arithmetic (run default_config full_run_trace empty_world))
       = 3 / 10
   \<and> average_duration_minutes (get_stats exact_arithmetic (run default_config full_run_trace empty_world))
       = 3 / 10
   \<and> total_duration exact_arithmetic (DB (run default_config full_run_trace empty_world))
       = foldl (fl_add exact_arithmetic) 0
           (map last_end (filter (\<lambda>r. status r = ''completed'' \<and> has_transcript r)
              (map snd (DB (run default_config full_run_trace empty_world)))))"
proof -
  let ?w = "run default_config full_run_trace empty_world"
  have h: "list_all (\<lambda>r. has_transcript r \<longrightarrow> status r = ''completed'') (map snd (DB ?w))"
    unfolding run_full_default by (simp add: sim_world_simps)
  have l: "list_all (\<lambda>r. \<not> has_transcript r \<or> status r = ''completed'') (map snd (DB ?w))"
    unfolding run_full_default by (simp add: sim_world_simps)
  have c: "count_status ''completed'' (DB ?w) = 1"
    unfolding run_full_default sim_world_simps by (simp add: count_status_def)
  have t: "total_duration exact_arithmetic (DB ?w) = 18"
    unfolding run_full_default sim_world_simps by (rule total_duration_sample) simp
  note s = stats_durations_from_transcripts [of exact_arithmetic ?w "\<lambda>k r. status r"]
  have s2: "completed_interviews (get_stats exact_arithmetic ?w) = 1"
    using s c by simp
  have s5: "total_duration_minutes (get_stats exact_arithmetic ?w) = 3 / 10"
    using s t by (simp add: exact_arithmetic_simps round2_sample)
  have s6: "average_duration_minutes (get_stats exact_arithmetic ?w) = 3 / 10"
    using s c t by (simp add: exact_arithmetic_simps round2_sample)
  have s9: "total_duration exact_arithmetic (DB ?w)
       = foldl (fl_add exact_arithmetic) 0
           (map last_end (filter (\<lambda>r. status r = ''completed'' \<and> has_transcript r)
              (map snd (DB ?w))))"
    using s h by blast
  show ?thesis
    by (rule conjI [OF l conjI [OF s2 conjI [OF s5 conjI [OF s6 s9]]]])
qed

subsection \<open>The invariant of the reachable records\<close>

lemma task_inv_advances: "task_inv cfg p r \<Longrightarrow> advances r r' \<Longrightarrow> task_inv cfg p r'"
  by (cases p) (auto simp: task_inv_def advances_def)

lemma advances_refl: "advances r r"
  by (simp add: advances_def)

lemma sim_step_absent_record:
  assumes "db_get db k = None"
  shows "snd (sim_step cfg now k p db) = db"
  using assms
  by (cases p)
     (simp_all add: try_stmt_def handler_stmt_def db_modify_def split: sum.split)

lemma sim_step_present_record:
  assumes r: "db_get db k = Some r" and inv: "record_inv cfg r" "task_inv cfg p r"
  shows "\<exists>r'. (\<forall>k'. db_get (snd (sim_step cfg now k p db)) k'
                      = (if k' = k then Some r' else db_get db k'))
            \<and> advances r r' \<and> record_inv cfg r'
            \<and> task_inv cfg (fst (sim_step cfg now k p db)) r'"
proof (cases p)
  case P_processing
  let ?r' = "r\<lparr>status := ''processing''\<rparr>"
  have "(\<forall>k'. db_get (snd (sim_step cfg now k p db)) k' = (if k' = k then Some ?r' else db_get db k'))"
    using r P_processing by (simp add: try_stmt_def db_modify_def db_get_set)
  moreover have "advances r ?r'" by (simp add: advances_def)
  moreover have "record_inv cfg ?r'" using inv(1) by (simp add: record_inv_def)
  moreover have "task_inv cfg (fst (sim_step cfg now k p db)) ?r'"
    using r P_processing by (simp add: try_stmt_def db_modify_def task_inv_def)
  ultimately show ?thesis by blast
next
  case P_updated1
  let ?r' = "r\<lparr>updated_at := now\<rparr>"
  have "(\<forall>k'. db_get (snd (sim_step cfg now k p db)) k' = (if k' = k then Some ?r' else db_get db k'))"
    using r P_updated1 by (simp add: try_stmt_def db_modify_def db_get_set)
  moreover have "advances r ?r'" by (simp add: advances_def)
  moreover have "record_inv cfg ?r'" using inv(1) by (simp add: record_inv_def)
  moreover have "task_inv cfg (fst (sim_step cfg now k p db)) ?r'"
    using r inv(2) P_updated1 by (simp add: try_stmt_def db_modify_def task_inv_def)
  ultimately show ?thesis by blast
next
  case P_sleep
  have "(\<forall>k'. db_get (snd (sim_step cfg now k p db)) k' = (if k' = k then Some r else db_get db k'))"
    using r P_sleep by simp
  moreover have "task_inv cfg (fst (sim_step cfg now k p db)) r"
    using inv(2) P_sleep by (simp add: task_inv_def)
  ultimately show ?thesis using inv(1) advances_refl by blast
next
  case P_transcript
  show ?thesis
  proof (cases "sample_transcript cfg")
    case (Inl e)
    have "(\<forall>k'. db_get (snd (sim_step cfg now k p db)) k' = (if k' = k then Some r else db_get db k'))"
      using r P_transcript Inl by simp
    moreover have "task_inv cfg (fst (sim_step cfg now k p db)) r"
      using P_transcript Inl by (simp add: task_inv_def good_samples_def)
    ultimately show ?thesis using inv(1) advances_refl by blast
  next
    case (Inr ts)
    let ?r' = "r\<lparr>transcript := Some ts\<rparr>"
    have "(\<forall>k'. db_get (snd (sim_step cfg now k p db)) k' = (if k' = k then Some ?r' else db_get db k'))"
      using r P_transcript Inr by (simp add: try_stmt_def db_modify_def db_get_set)
    moreover have "advances r ?r'" by (simp add: advances_def)
    moreover have "record_inv cfg ?r'"
      using inv P_transcript by (simp add: record_inv_def task_inv_def)
    moreover have "task_inv cfg (fst (sim_step cfg now k p db)) ?r'"
      using r inv(2) P_transcript Inr by (simp add: try_stmt_def db_modify_def task_inv_def)
    ultimately show ?thesis by blast
  qed
next
  case P_analysis
  show ?thesis
  proof (cases "sample_analysis cfg")
    case (Inl e)
    have "(\<forall>k'. db_get (snd (sim_step cfg now k p db)) k' = (if k' = k then Some r else db_get db k'))"
      using r P_analysis Inl by simp
    moreover have "task_inv cfg (fst (sim_step cfg now k p db)) r"
      using P_analysis Inl by (simp add: task_inv_def good_samples_def split: sum.split)
    ultimately show ?thesis using inv(1) advances_refl by blast
  next
    case (Inr a)
    let ?r' = "r\<lparr>analysis := Some a\<rparr>"
    from inv(2) P_analysis Inr have good: "good_samples cfg"
      by (auto simp: task_inv_def good_samples_def)
    have "(\<forall>k'. db_get (snd (sim_step cfg now k p db)) k' = (if k' = k then Some ?r' else db_get db k'))"
      using r P_analysis Inr by (simp add: try_stmt_def db_modify_def db_get_set)
    moreover have "advances r ?r'" by (simp add: advances_def)
    moreover have "record_inv cfg ?r'"
      using inv P_analysis good by (simp add: record_inv_def task_inv_def)
    moreover have "task_inv cfg (fst (sim_step cfg now k p db)) ?r'"
      using r inv(2) P_analysis Inr by (simp add: try_stmt_def db_modify_def task_inv_def)
    ultimately show ?thesis by blast
  qed
next
  case P_completed
  let ?r' = "r\<lparr>status := ''completed''\<rparr>"
  have "(\<forall>k'. db_get (snd (sim_step cfg now k p db)) k' = (if k' = k then Some ?r' else db_get db k'))"
    using r P_completed by (simp add: try_stmt_def db_modify_def db_get_set)
  moreover have "advances r ?r'" by (simp add: advances_def)
  moreover have "record_inv cfg ?r'"
    using inv P_completed by (simp add: record_inv_def task_inv_def)
  moreover have "task_inv cfg (fst (sim_step cfg now k p db)) ?r'"
    using r P_completed by (simp add: try_stmt_def db_modify_def task_inv_def)
  ultimately show ?thesis by blast
next
  case P_updated2
  let ?r' = "r\<lparr>updated_at := now\<rparr>"
  have "(\<forall>k'. db_get (snd (sim_step cfg now k p db)) k' = (if k' = k then Some ?r' else db_get db k'))"
    using r P_updated2 by (simp add: try_stmt_def db_modify_def db_get_set)
  moreover have "advances r ?r'" by (simp add: advances_def)
  moreover have "record_inv cfg ?r'" using inv(1) by (simp add: record_inv_def)
  moreover have "task_inv cfg (fst (sim_step cfg now k p db)) ?r'"
    using r P_updated2 by (simp add: try_stmt_def db_modify_def task_inv_def)
  ultimately show ?thesis by blast
next
  case H_failed
  let ?r' = "r\<lparr>status := ''failed''\<rparr>"
  from inv(2) H_failed have bad: "\<not> good_samples cfg" by (simp add: task_inv_def)
  have "(\<forall>k'. db_get (snd (sim_step cfg now k p db)) k' = (if k' = k then Some ?r' else db_get db k'))"
    using r H_failed by (simp add: handler_stmt_def db_modify_def db_get_set)
  moreover have "advances r ?r'" by (simp add: advances_def)
  moreover have "record_inv cfg ?r'"
    using inv(1) bad by (simp add: record_inv_def)
  moreover have "task_inv cfg (fst (sim_step cfg now k p db)) ?r'"
    using r H_failed bad by (simp add: handler_stmt_def db_modify_def task_inv_def)
  ultimately show ?thesis by blast
next
  case H_updated
  let ?r' = "r\<lparr>updated_at := now\<rparr>"
  have "(\<forall>k'. db_get (snd (sim_step cfg now k p db)) k' = (if k' = k then Some ?r' else db_get db k'))"
    using r H_updated by (simp add: handler_stmt_def db_modify_def db_get_set)
  moreover have "advances r ?r'" by (simp add: advances_def)
  moreover have "record_inv cfg ?r'" using inv(1) by (simp add: record_inv_def)
  moreover have "task_inv cfg (fst (sim_step cfg now k p db)) ?r'"
    using r H_updated by (simp add: handler_stmt_def db_modify_def task_inv_def)
  ultimately show ?thesis by blast
next
  case Returned
  have "(\<forall>k'. db_get (snd (sim_step cfg now k p db)) k' = (if k' = k then Some r else db_get db k'))"
    using r Returned by simp
  moreover have "task_inv cfg (fst (sim_step cfg now k p db)) r"
    using Returned by (simp add: task_inv_def)
  ultimately show ?thesis using inv(1) advances_refl by blast
next
  case (Raised e)
  have "(\<forall>k'. db_get (snd (sim_step cfg now k p db)) k' = (if k' = k then Some r else db_get db k'))"
    using r Raised by simp
  moreover have "task_inv cfg (fst (sim_step cfg now k p db)) r"
    using Raised by (simp add: task_inv_def)
  ultimately show ?thesis using inv(1) advances_refl by blast
qed
lemma record_inv_tags:
  "record_inv cfg (r\<lparr>tags := ts, updated_at := t\<rparr>) = record_inv cfg r"
  "task_inv cfg p (r\<lparr>tags := ts, updated_at := t\<rparr>) = task_inv cfg p r"
  by (simp_all add: record_inv_def task_inv_def split: pc.split)

lemma world_invI:
  assumes "\<And>k r. db_get (DB w) k = Some r \<Longrightarrow> k \<in> ids \<and> record_inv cfg r"
    and "\<And>t. t \<in> set (tasks w) \<Longrightarrow> fst t \<in> ids"
    and "\<And>t r. t \<in> set (tasks w) \<Longrightarrow> db_get (DB w) (fst t) = Some r
           \<Longrightarrow> task_inv cfg (snd t) r"
  shows "world_inv cfg ids w"
  using assms unfolding world_inv_def by blast

lemma world_inv_db_change:
  assumes inv: "world_inv cfg ids w"
    and tasks: "tasks w' = tasks w"
    and db: "\<And>k r'. db_get (DB w') k = Some r' \<Longrightarrow>
               \<exists>r. db_get (DB w) k = Some r \<and> record_inv cfg r' = record_inv cfg r
                   \<and> (\<forall>p. task_inv cfg p r' = task_inv cfg p r)"
  shows "world_inv cfg ids w'"
proof (rule world_invI)
  fix k r' assume "db_get (DB w') k = Some r'"
  from db [OF this] inv show "k \<in> ids \<and> record_inv cfg r'"
    by (auto simp: world_inv_def)
next
  fix t assume "t \<in> set (tasks w')"
  with tasks inv show "fst t \<in> ids" by (auto simp: world_inv_def)
next
  fix t r' assume t: "t \<in> set (tasks w')" and r': "db_get (DB w') (fst t) = Some r'"
  from db [OF r'] obtain r where "db_get (DB w) (fst t) = Some r"
      "\<forall>p. task_inv cfg p r' = task_inv cfg p r"
    by blast
  with t tasks inv show "task_inv cfg (snd t) r'" by (auto simp: world_inv_def)
qed

lemma step_world_inv:
  assumes inv: "world_inv cfg ids w" and fresh: "set (upload_ids [e]) \<inter> ids = {}"
  shows "world_inv cfg (ids \<union> set (upload_ids [e])) (step cfg e w)"
proof (cases e)
  case (Upload env f)
  from fresh Upload have u: "uuid4 env \<notin> ids" by simp
  from upload_effect [of cfg env f w]
  have tasks: "tasks (step cfg e w) = tasks w"
    and db: "DB (step cfg e w) = DB w
      \<or> (\<exists>iv. DB (step cfg e w) = db_set (uuid4 env) iv (DB w)
            \<and> status iv = ''uploaded'' \<and> transcript iv = None \<and> analysis iv = None)"
    using Upload by simp_all
  from db show ?thesis
  proof
    assume "DB (step cfg e w) = DB w"
    with tasks inv Upload show ?thesis by (auto simp: world_inv_def)
  next
    assume "\<exists>iv. DB (step cfg e w) = db_set (uuid4 env) iv (DB w)
            \<and> status iv = ''uploaded'' \<and> transcript iv = None \<and> analysis iv = None"
    then obtain iv where iv: "DB (step cfg e w) = db_set (uuid4 env) iv (DB w)"
        "status iv = ''uploaded''" "transcript iv = None" "analysis iv = None"
      by blast
    have new: "record_inv cfg iv" using iv(2-4) by (simp add: record_inv_def)
    show ?thesis
    proof (rule world_invI)
      fix k r assume "db_get (DB (step cfg e w)) k = Some r"
      with iv(1) new inv Upload show "k \<in> ids \<union> set (upload_ids [e]) \<and> record_inv cfg r"
        by (auto simp: db_get_set world_inv_def split: if_splits)
    next
      fix t assume "t \<in> set (tasks (step cfg e w))"
      with tasks inv show "fst t \<in> ids \<union> set (upload_ids [e])" by (auto simp: world_inv_def)
    next
      fix t r assume t: "t \<in> set (tasks (step cfg e w))"
        and r: "db_get (DB (step cfg e w)) (fst t) = Some r"
      from t tasks inv have "fst t \<in> ids" by (auto simp: world_inv_def)
      with u have "fst t \<noteq> uuid4 env" by auto
      with r iv(1) have "db_get (DB w) (fst t) = Some r" by (simp add: db_get_set)
      with t tasks inv show "task_inv cfg (snd t) r" by (auto simp: world_inv_def)
    qed
  qed
next
  case (Transcribe k')
  from transcribe_effect [of k' w]
  have db: "DB (step cfg e w) = DB w"
    and tasks: "tasks (step cfg e w) = tasks w
      \<or> (tasks (step cfg e w) = tasks w @ [(k', P_processing)] \<and> db_get (DB w) k' \<noteq> None)"
    using Transcribe by simp_all
  from tasks show ?thesis
  proof
    assume "tasks (step cfg e w) = tasks w"
    with db inv Transcribe show ?thesis by (simp add: world_inv_def)
  next
    assume a: "tasks (step cfg e w) = tasks w @ [(k', P_processing)] \<and> db_get (DB w) k' \<noteq> None"
    then have "k' \<in> ids" using inv by (auto simp: world_inv_def)
    with a db inv Transcribe show ?thesis
      by (auto simp: world_inv_def task_inv_def)
  qed
next
  case (SimStep i now)
  show ?thesis
  proof (cases "i < length (tasks w)")
    case False
    with inv SimStep show ?thesis by simp
  next
    case True
    obtain k' p where t: "tasks w ! i = (k', p)" by (cases "tasks w ! i")
    with True have mem: "(k', p) \<in> set (tasks w)" by (metis nth_mem)
    let ?s = "sim_step cfg now k' p (DB w)"
    have w': "step cfg e w = w\<lparr>DB := snd ?s, tasks := (tasks w)[i := (k', fst ?s)]\<rparr>"
      using SimStep True t by (simp add: Let_def)
    have k': "k' \<in> ids" using mem inv by (auto simp: world_inv_def)
    have sub: "set ((tasks w)[i := (k', fst ?s)]) \<subseteq> insert (k', fst ?s) (set (tasks w))"
      by (rule set_update_subset_insert)
    show ?thesis
    proof (cases "db_get (DB w) k'")
      case None
      then have same: "snd ?s = DB w" by (rule sim_step_absent_record)
      show ?thesis
        unfolding w'
      proof (rule world_invI)
        fix k r assume "db_get (DB (w\<lparr>DB := snd ?s, tasks := (tasks w)[i := (k', fst ?s)]\<rparr>)) k = Some r"
        with same inv SimStep show "k \<in> ids \<union> set (upload_ids [e]) \<and> record_inv cfg r"
          by (simp add: world_inv_def)
      next
        fix t' assume "t' \<in> set (tasks (w\<lparr>DB := snd ?s, tasks := (tasks w)[i := (k', fst ?s)]\<rparr>))"
        with sub k' inv show "fst t' \<in> ids \<union> set (upload_ids [e])"
          by (auto simp: world_inv_def)
      next
        fix t' r
        assume t': "t' \<in> set (tasks (w\<lparr>DB := snd ?s, tasks := (tasks w)[i := (k', fst ?s)]\<rparr>))"
          and r: "db_get (DB (w\<lparr>DB := snd ?s, tasks := (tasks w)[i := (k', fst ?s)]\<rparr>)) (fst t') = Some r"
        from r same have r0: "db_get (DB w) (fst t') = Some r" by simp
        from t' sub have "t' = (k', fst ?s) \<or> t' \<in> set (tasks w)" by auto
        then show "task_inv cfg (snd t') r"
        proof
          assume "t' = (k', fst ?s)"
          with r0 None show ?thesis by simp
        next
          assume "t' \<in> set (tasks w)"
          with r0 inv show ?thesis by (auto simp: world_inv_def)
        qed
      qed
    next
      case (Some r0)
      have ri: "record_inv cfg r0" using Some inv by (auto simp: world_inv_def)
      have ti: "task_inv cfg p r0" using Some mem inv by (force simp: world_inv_def)
      from sim_step_present_record [OF Some ri ti, of now]
      obtain r' where r':
          "\<forall>k. db_get (snd ?s) k = (if k = k' then Some r' else db_get (DB w) k)"
          "advances r0 r'" "record_inv cfg r'" "task_inv cfg (fst ?s) r'"
        by blast
      show ?thesis
        unfolding w'
      proof (rule world_invI)
        fix k r assume "db_get (DB (w\<lparr>DB := snd ?s, tasks := (tasks w)[i := (k', fst ?s)]\<rparr>)) k = Some r"
        with r'(1,3) k' inv show "k \<in> ids \<union> set (upload_ids [e]) \<and> record_inv cfg r"
          by (auto simp: world_inv_def split: if_splits)
      next
        fix t' assume "t' \<in> set (tasks (w\<lparr>DB := snd ?s, tasks := (tasks w)[i := (k', fst ?s)]\<rparr>))"
        with sub k' inv show "fst t' \<in> ids \<union> set (upload_ids [e])"
          by (auto simp: world_inv_def)
      next
        fix t' r
        assume t': "t' \<in> set (tasks (w\<lparr>DB := snd ?s, tasks := (tasks w)[i := (k', fst ?s)]\<rparr>))"
          and r: "db_get (DB (w\<lparr>DB := snd ?s, tasks := (tasks w)[i := (k', fst ?s)]\<rparr>)) (fst t') = Some r"
        from t' sub have "t' = (k', fst ?s) \<or> t' \<in> set (tasks w)" by auto
        then show "task_inv cfg (snd t') r"
        proof
          assume "t' = (k', fst ?s)"
          with r r'(1,4) show ?thesis by simp
        next
          assume old: "t' \<in> set (tasks w)"
          show ?thesis
          proof (cases "fst t' = k'")
            case True
            with r r'(1) have "r = r'" by simp
            moreover from old True Some inv have "task_inv cfg (snd t') r0"
              by (auto simp: world_inv_def)
            ultimately show ?thesis using r'(2) task_inv_advances by blast
          next
            case False
            with r r'(1) have "db_get (DB w) (fst t') = Some r" by simp
            with old inv show ?thesis by (auto simp: world_inv_def)
          qed
        qed
      qed
    qed
  qed
next
  case (AddTag k' tag now)
  have "world_inv cfg ids (step cfg e w)"
  proof (rule world_inv_db_change [OF inv])
    show "tasks (step cfg e w) = tasks w"
      using AddTag add_tag_effect [of k' tag now w] by simp
  next
    fix k r' assume "db_get (DB (step cfg e w)) k = Some r'"
    with AddTag add_tag_effect [of k' tag now w]
    show "\<exists>r. db_get (DB w) k = Some r \<and> record_inv cfg r' = record_inv cfg r
                   \<and> (\<forall>p. task_inv cfg p r' = task_inv cfg p r)"
      by (auto simp: db_get_set record_inv_tags split: if_splits)
  qed
  with AddTag show ?thesis by simp
next
  case (DeleteTag k' tid now)
  have "world_inv cfg ids (step cfg e w)"
  proof (rule world_inv_db_change [OF inv])
    show "tasks (step cfg e w) = tasks w"
      using DeleteTag delete_tag_effect [of k' tid now w] by simp
  next
    fix k r' assume "db_get (DB (step cfg e w)) k = Some r'"
    with DeleteTag delete_tag_effect [of k' tid now w]
    show "\<exists>r. db_get (DB w) k = Some r \<and> record_inv cfg r' = record_inv cfg r
                   \<and> (\<forall>p. task_inv cfg p r' = task_inv cfg p r)"
      by (auto simp: db_get_set record_inv_tags split: if_splits)
  qed
  with DeleteTag show ?thesis by simp
next
  case (DeleteInterview d rm k')
  have "world_inv cfg ids (step cfg e w)"
  proof (rule world_inv_db_change [OF inv])
    show "tasks (step cfg e w) = tasks w"
      using DeleteInterview delete_interview_effect [of cfg d rm k' w] by simp
  next
    fix k r' assume "db_get (DB (step cfg e w)) k = Some r'"
    with DeleteInterview delete_interview_effect [of cfg d rm k' w]
    show "\<exists>r. db_get (DB w) k = Some r \<and> record_inv cfg r' = record_inv cfg r
                   \<and> (\<forall>p. task_inv cfg p r' = task_inv cfg p r)"
      by (auto simp: db_get_del split: if_splits)
  qed
  with DeleteInterview show ?thesis by simp
qed
lemma world_inv_empty: "world_inv cfg {} empty_world"
  by (simp add: world_inv_def empty_world_def db_get_def)

lemma run_world_inv:
  assumes "world_inv cfg ids w" "distinct (upload_ids evs)" "set (upload_ids evs) \<inter> ids = {}"
  shows "world_inv cfg (ids \<union> set (upload_ids evs)) (run cfg evs w)"
  using assms
proof (induction evs arbitrary: w ids)
  case Nil
  then show ?case by (simp add: run_def)
next
  case (Cons e evs)
  have split: "upload_ids (e # evs) = upload_ids [e] @ upload_ids evs"
    using upload_ids_append [of "[e]" evs] by simp
  from Cons.prems(2,3) split
  have d: "distinct (upload_ids evs)"
    and f1: "set (upload_ids [e]) \<inter> ids = {}"
    and f2: "set (upload_ids evs) \<inter> (ids \<union> set (upload_ids [e])) = {}"
    by auto
  from Cons.IH [OF step_world_inv [OF Cons.prems(1) f1] d f2]
  show ?case by (simp add: run_def split Un_assoc)
qed

text \<open>
  C2 (as amended). In every world that the service reaches from the empty store, through
  any sequence of uploads, requests and single statements of simulator runs in which
  \<^verbatim>\<open>uuid4\<close> does not repeat an identifier, every record satisfies: with the status
  \<^verbatim>\<open>uploaded\<close> the transcript and the analysis are both null; with the status
  \<^verbatim>\<open>completed\<close> both are non-null; the analysis is non-null only when the transcript
  is; and with the status \<^verbatim>\<open>failed\<close> the analysis is null.
\<close>

theorem reachable_record_invariant:
  assumes "distinct (upload_ids evs)" "db_get (DB (run cfg evs empty_world)) k = Some r"
  shows "(status r = ''uploaded'' \<longrightarrow> transcript r = None \<and> analysis r = None)
       \<and> (status r = ''completed'' \<longrightarrow> transcript r \<noteq> None \<and> analysis r \<noteq> None)
       \<and> (analysis r \<noteq> None \<longrightarrow> transcript r \<noteq> None)
       \<and> (status r = ''failed'' \<longrightarrow> analysis r = None)"
proof -
  from run_world_inv [OF world_inv_empty assms(1), of cfg]
  have "world_inv cfg ({} \<union> set (upload_ids evs)) (run cfg evs empty_world)" by simp
  with assms(2) have "record_inv cfg r" by (auto simp: world_inv_def)
  then show ?thesis by (auto simp: record_inv_def)
qed

text \<open>
  The claim as stated fails twice. With the sample data of the module, the state after
  the statement that attaches the transcript has a record in \<^verbatim>\<open>processing\<close> whose
  transcript is non-null and whose analysis is null. And when building the analysis
  raises, the run ends with a record in \<^verbatim>\<open>failed\<close> whose transcript is non-null.
\<close>

theorem transcript_without_analysis_counterexample:
  "get_status ''i1'' (run default_config attach_trace empty_world) = Inr ''processing''
   \<and> map_option transcript (db_get (DB (run default_config attach_trace empty_world)) ''i1'')
       = Some (Some SAMPLE_TRANSCRIPT)
   \<and> map_option analysis (db_get (DB (run default_config attach_trace empty_world)) ''i1'')
       = Some None
   \<and> get_status ''i1'' (run bad_analysis_config full_run_trace empty_world) = Inr ''failed''
   \<and> map_option transcript (db_get (DB (run bad_analysis_config full_run_trace empty_world)) ''i1'')
       = Some (Some SAMPLE_TRANSCRIPT)
   \<and> map_option analysis (db_get (DB (run bad_analysis_config full_run_trace empty_world)) ''i1'')
       = Some None"
  unfolding run_attach run_full_bad sim_world_simps(3,4)
  by (simp add: clip_record_def)

lemma upload_ids_traces:
  "upload_ids scheduled_trace = [''i1'']" "upload_ids full_run_trace = [''i1'']"
  by (simp_all add: scheduled_trace_def full_run_trace_def env1_def upload_ids_append)

theorem reachable_record_invariant_witness:
  "distinct (upload_ids scheduled_trace) \<and> distinct (upload_ids full_run_trace)
   \<and> db_get (DB (run default_config scheduled_trace empty_world)) ''i1'' = Some clip_record
   \<and> status clip_record = ''uploaded''
   \<and> transcript clip_record = None \<and> analysis clip_record = None
   \<and> get_status ''i1'' (run default_config full_run_trace empty_world) = Inr ''completed''
   \<and> map_option transcript (db_get (DB (run default_config full_run_trace empty_world)) ''i1'')
       = Some (Some SAMPLE_TRANSCRIPT)
   \<and> map_option analysis (db_get (DB (run default_config full_run_trace empty_world)) ''i1'')
       = Some (Some SAMPLE_ANALYSIS)
   \<and> get_status ''i1'' (run bad_analysis_config full_run_trace empty_world) = Inr ''failed''
   \<and> map_option analysis (db_get (DB (run bad_analysis_config full_run_trace empty_world)) ''i1'')
       = Some None"
proof -
  let ?c = "clip_record\<lparr>status := ''processing'', updated_at := 2,
            transcript := Some SAMPLE_TRANSCRIPT, analysis := Some SAMPLE_ANALYSIS,
            status := ''completed'', updated_at := 4\<rparr>"
  let ?f = "clip_record\<lparr>status := ''processing'', updated_at := 2,
            transcript := Some SAMPLE_TRANSCRIPT, status := ''failed'', updated_at := 4\<rparr>"
  have d: "distinct (upload_ids scheduled_trace)" "distinct (upload_ids full_run_trace)"
    by (simp_all add: upload_ids_traces)
  have u: "db_get (DB (run default_config scheduled_trace empty_world)) ''i1'' = Some clip_record"
    unfolding run_scheduled [OF default_config_simps(1) default_config_simps(2)]
    by (rule sim_world_simps(3))
  have c: "db_get (DB (run default_config full_run_trace empty_world)) ''i1'' = Some ?c"
    unfolding run_full_default by (rule sim_world_simps(3))
  have f: "db_get (DB (run bad_analysis_config full_run_trace empty_world)) ''i1'' = Some ?f"
    unfolding run_full_bad by (rule sim_world_simps(3))
  have su: "status clip_record = ''uploaded''" by (simp add: clip_record_def)
  have sc: "status ?c = ''completed''" and sf: "status ?f = ''failed''" by simp_all
  note iu = reachable_record_invariant [OF d(1) u]
  note ic = reachable_record_invariant [OF d(2) c]
  note if' = reachable_record_invariant [OF d(2) f]
  have u1: "transcript clip_record = None \<and> analysis clip_record = None"
    using iu su by blast
  have c1: "transcript ?c \<noteq> None \<and> analysis ?c \<noteq> None"
    using ic sc by blast
  have f1: "analysis ?f = None"
    using if' sf by blast
  show ?thesis
    using d u su u1 c1 f1
    unfolding run_full_default run_full_bad sim_world_simps(3,4)
    by simp
qed

end
